theory Spec2Isabelle
  imports Main "HOL-Library.Word"
begin

unbundle bit_operations_syntax

section \<open>Bytes, addresses and receive buffers\<close>

text \<open>
  The changer code works on \<^verbatim>\<open>uint8_t\<close> buffers and \<^verbatim>\<open>uint16_t\<close> element
  addresses. Offsets and lengths are \<^verbatim>\<open>uint32_t\<close> in the source; they are natural
  numbers here, because every buffer the code parses is at most 65535 bytes long and a
  page byte count is below \<open>2 ^ 24\<close>, so no offset computation reaches \<open>2 ^ 32\<close>.
\<close>

type_synonym u8 = "8 word"
type_synonym u16 = "16 word"

text \<open>
  A receive buffer is allocated with \<^verbatim>\<open>calloc\<close> (or cleared with \<^verbatim>\<open>memset\<close>)
  before each command, so every byte the device did not write is zero. A buffer is
  represented by the bytes that were written; \<open>byte_at\<close> reads the zero fill behind them.
  Every allocation is taken to succeed: the branches that return early when \<^verbatim>\<open>calloc\<close>
  gives a null pointer are not part of the model.
\<close>

definition byte_at :: "u8 list \<Rightarrow> nat \<Rightarrow> u8" where
  "byte_at buf i = (if i < length buf then buf ! i else 0)"

text \<open>\<^verbatim>\<open>(buf[i] << 8) | buf[i + 1]\<close> stored in a \<^verbatim>\<open>uint16_t\<close>.\<close>

definition be16 :: "u8 \<Rightarrow> u8 \<Rightarrow> u16" where
  "be16 hi lo = push_bit 8 (ucast hi) OR ucast lo"

text \<open>\<^verbatim>\<open>(buf[i] << 16) | (buf[i + 1] << 8) | buf[i + 2]\<close> stored in a \<^verbatim>\<open>uint32_t\<close>.\<close>

definition be24 :: "u8 \<Rightarrow> u8 \<Rightarrow> u8 \<Rightarrow> nat" where
  "be24 a b c = unat (push_bit 16 (ucast a) OR push_bit 8 (ucast b) OR ucast c :: 32 word)"

section \<open>Element lists and the element map\<close>

text \<open>
  \<^verbatim>\<open>ElementList\<close> is a growable array of addresses; its \<^verbatim>\<open>count\<close> is the length of
  the list here. \<^verbatim>\<open>element_list_push\<close> appends at the end (the reallocation it may
  need is taken to succeed).
\<close>

record ElementMap =
  transports :: "u16 list"
  slots :: "u16 list"
  drives :: "u16 list"
  ie :: "u16 list"

definition empty_map :: ElementMap where
  "empty_map = \<lparr>transports = [], slots = [], drives = [], ie = []\<rparr>"

definition element_list_push :: "u16 list \<Rightarrow> u16 \<Rightarrow> u16 list" where
  "element_list_push list address = list @ [address]"

definition total_count :: "ElementMap \<Rightarrow> nat" where
  "total_count m = length (transports m) + length (slots m) + length (drives m) + length (ie m)"

section \<open>Element status descriptor flags\<close>

text \<open>
  \<^verbatim>\<open>print_flags\<close> of \<^verbatim>\<open>mchanger.c\<close> and of \<^verbatim>\<open>xl1b_changer.c\<close> decode descriptor
  byte 2 into the pair (except, full) that they print.
\<close>

definition print_flags :: "u8 \<Rightarrow> bool \<times> bool" where
  "print_flags flags = (flags AND 0x80 \<noteq> 0, flags AND 0x01 \<noteq> 0)"

definition xl1b_print_flags :: "u8 \<Rightarrow> bool \<times> bool" where
  "xl1b_print_flags flags = (flags AND 0x80 \<noteq> 0, flags AND 0x20 \<noteq> 0)"

section \<open>Parsing element status into an element map\<close>

text \<open>The test whether all \<open>desc_len\<close> bytes of a descriptor are zero.\<close>

definition all_zero :: "u8 list \<Rightarrow> nat \<Rightarrow> nat \<Rightarrow> bool" where
  "all_zero buf offset desc_len = list_all (\<lambda>i. byte_at buf (offset + i) = 0) [0..<desc_len]"

text \<open>The chain of \<^verbatim>\<open>element_list_push\<close> calls selected by the page's element type.\<close>

definition push_by_type :: "u8 \<Rightarrow> u16 \<Rightarrow> ElementMap \<Rightarrow> ElementMap" where
  "push_by_type type elem_addr m =
     (if type = 0x01 then m\<lparr>transports := element_list_push (transports m) elem_addr\<rparr>
      else if type = 0x02 then m\<lparr>slots := element_list_push (slots m) elem_addr\<rparr>
      else if type = 0x03 then m\<lparr>ie := element_list_push (ie m) elem_addr\<rparr>
      else if type = 0x04 then m\<lparr>drives := element_list_push (drives m) elem_addr\<rparr>
      else m)"

text \<open>
  The inner loop of \<^verbatim>\<open>parse_element_status_map\<close> over the descriptors of one page.
  It returns the offset at which the loop was left and the map.
\<close>

function parse_descriptors ::
  "u8 list \<Rightarrow> u8 \<Rightarrow> nat \<Rightarrow> nat \<Rightarrow> nat \<Rightarrow> ElementMap \<Rightarrow> nat \<times> ElementMap" where
  "parse_descriptors buf type desc_len page_end offset m =
     (if offset + desc_len \<le> page_end then
        (if desc_len < 2 then (page_end, m)
         else
           let elem_addr = be16 (byte_at buf offset) (byte_at buf (offset + 1)) in
           if type = 0x02 \<and> elem_addr = 0x0000 \<and> all_zero buf offset desc_len
           then parse_descriptors buf type desc_len page_end (offset + desc_len) m
           else parse_descriptors buf type desc_len page_end (offset + desc_len)
                  (push_by_type type elem_addr m))
      else (offset, m))"
  by pat_completeness auto
termination
  by (relation "measure (\<lambda>(buf, type, desc_len, page_end, offset, m). page_end - offset)") auto

declare parse_descriptors.simps [simp del]

lemma parse_descriptors_offset:
  "offset \<le> fst (parse_descriptors buf type desc_len page_end offset m)"
proof (induction buf type desc_len page_end offset m rule: parse_descriptors.induct)
  case (1 buf type desc_len page_end offset m)
  show ?case
  proof (cases "offset + desc_len \<le> page_end \<and> \<not> desc_len < 2")
    case True
    then show ?thesis
      using "1.IH"
      by (subst parse_descriptors.simps) (auto simp: Let_def split: if_splits)
  next
    case False
    then show ?thesis
      by (subst parse_descriptors.simps) auto
  qed
qed

text \<open>
  The outer loop of \<^verbatim>\<open>parse_element_status_map\<close> over the type pages. Every caller
  passes the address of a map, so the test for a null \<open>map\<close> is left out.
\<close>

function parse_pages :: "u8 list \<Rightarrow> nat \<Rightarrow> nat \<Rightarrow> ElementMap \<Rightarrow> ElementMap" where
  "parse_pages buf len offset m =
     (if offset + 8 \<le> len then
        let type = byte_at buf offset AND 0x0F;
            desc_len = unat (be16 (byte_at buf (offset + 2)) (byte_at buf (offset + 3)));
            page_bytes = be24 (byte_at buf (offset + 5)) (byte_at buf (offset + 6))
                           (byte_at buf (offset + 7));
            offset1 = offset + 8
        in if desc_len = 0 \<or> page_bytes = 0 then m
           else
             let page_end = (if offset1 + page_bytes > len then len else offset1 + page_bytes);
                 (offset2, m2) = parse_descriptors buf type desc_len page_end offset1 m;
                 offset3 = (if offset2 < page_end then page_end else offset2)
             in parse_pages buf len offset3 m2
      else m)"
  by pat_completeness auto
termination
proof (relation "measure (\<lambda>(buf, len, offset, m). len - offset)", goal_cases)
  case 1
  show ?case by simp
next
  case (2 buf len offset m type desc_len page_bytes offset1 page_end x offset2 m2 offset3)
  have "offset1 \<le> fst (parse_descriptors buf type desc_len page_end offset1 m)"
    by (rule parse_descriptors_offset)
  with 2 have "offset1 \<le> offset2"
    by (metis fst_conv)
  with 2 show ?case
    by (auto split: if_splits)
qed

declare parse_pages.simps [simp del]

definition parse_element_status_map :: "u8 list \<Rightarrow> nat \<Rightarrow> ElementMap \<Rightarrow> bool \<times> ElementMap" where
  "parse_element_status_map buf len m =
     (if len < 8 then (False, m)
      else let m' = parse_pages buf len 8 m in (total_count m' > 0, m'))"

section \<open>The transport: executing one command\<close>

text \<open>
  \<^verbatim>\<open>execute_cdb\<close> hands a command descriptor block to the device through one of the
  two IOKit back ends and returns 0 when the command completed with GOOD status and 1
  otherwise. The device is outside the program. It is a parameter of the model: a
  function from everything that has happened so far and the command to whether the
  command ends well and to the bytes it transfers. What has happened so far is the
  trace of events; every command executed is appended to it.
\<close>

datatype event =
    Scsi "u8 list"    \<comment> \<open>a command descriptor block handed to \<^verbatim>\<open>execute_cdb\<close>\<close>
  | HostEject         \<comment> \<open>\<^verbatim>\<open>eject_optical_media\<close>\<close>
  | HostWaitMount     \<comment> \<open>\<^verbatim>\<open>mchanger_wait_for_mount\<close>\<close>

type_synonym device = "event list \<Rightarrow> u8 list \<Rightarrow> bool \<times> u8 list"

definition execute_cdb ::
  "device \<Rightarrow> event list \<Rightarrow> u8 list \<Rightarrow> nat \<Rightarrow> (int \<times> u8 list) \<times> event list" where
  "execute_cdb dev tr cdb buffer_len =
     (let (good, data) = dev tr cdb
      in ((if good then 0 else 1, take buffer_len data), tr @ [Scsi cdb]))"

text \<open>
  \<^verbatim>\<open>eject_optical_media\<close> asks the host to eject a mounted disc. The library
  functions ignore its result; it issues no SCSI command.
\<close>

definition eject_optical_media :: "event list \<Rightarrow> event list" where
  "eject_optical_media tr = tr @ [HostEject]"

section \<open>Command descriptor blocks\<close>

definition hi_byte :: "u16 \<Rightarrow> u8" where
  "hi_byte w = ucast (drop_bit 8 w AND 0xFF)"

definition lo_byte :: "u16 \<Rightarrow> u8" where
  "lo_byte w = ucast (w AND 0xFF)"

text \<open>The 12 bytes of READ ELEMENT STATUS, as every caller fills them in.\<close>

definition read_element_status_cdb :: "u8 \<Rightarrow> u16 \<Rightarrow> u16 \<Rightarrow> nat \<Rightarrow> u8 list" where
  "read_element_status_cdb element_type start count alloc =
     [0xB8, element_type, hi_byte start, lo_byte start, hi_byte count, lo_byte count,
      of_nat ((alloc div 65536) mod 256), of_nat ((alloc div 256) mod 256), of_nat (alloc mod 256),
      0, 0, 0]"

definition mode_sense_element_cdb :: "u8 list" where
  "mode_sense_element_cdb = [0x5A, 0x08, 0x1D, 0x00, 0, 0, 0, 0x01, 0x00, 0]"

definition move_medium_cdb :: "u16 \<Rightarrow> u16 \<Rightarrow> u16 \<Rightarrow> u8 list" where
  "move_medium_cdb transport source dest =
     [0xA5, 0, hi_byte transport, lo_byte transport, hi_byte source, lo_byte source,
      hi_byte dest, lo_byte dest, 0, 0, 0, 0]"

definition cmd_move_medium ::
  "device \<Rightarrow> event list \<Rightarrow> u16 \<Rightarrow> u16 \<Rightarrow> u16 \<Rightarrow> int \<times> event list" where
  "cmd_move_medium dev tr transport source dest =
     (let ((rc, buf), tr') = execute_cdb dev tr (move_medium_cdb transport source dest) 0
      in (rc, tr'))"

text \<open>Which events of a trace are MOVE MEDIUM commands, and which are SCSI commands at all.\<close>

definition opcode :: "u8 list \<Rightarrow> u8" where
  "opcode cdb = byte_at cdb 0"

fun is_move_medium :: "event \<Rightarrow> bool" where
  "is_move_medium (Scsi cdb) = (opcode cdb = 0xA5)"
| "is_move_medium HostEject = False"
| "is_move_medium HostWaitMount = False"

fun is_scsi :: "event \<Rightarrow> bool" where
  "is_scsi (Scsi cdb) = True"
| "is_scsi HostEject = False"
| "is_scsi HostWaitMount = False"

definition moves_of :: "event list \<Rightarrow> event list" where
  "moves_of tr = filter is_move_medium tr"

section \<open>MODE SENSE: the element address assignment page\<close>

record ElementAddrAssignment =
  first_transport :: u16
  num_transport :: u16
  first_storage :: u16
  num_storage :: u16
  first_ie :: u16
  num_ie :: u16
  first_drive :: u16
  num_drive :: u16

definition zero_assignment :: ElementAddrAssignment where
  "zero_assignment = \<lparr>first_transport = 0, num_transport = 0, first_storage = 0,
     num_storage = 0, first_ie = 0, num_ie = 0, first_drive = 0, num_drive = 0\<rparr>"

text \<open>
  \<^verbatim>\<open>read_mode_sense_element(handle, out, print)\<close> with a non-null \<open>out\<close>; printing is
  not modelled. The result is the return code, the contents of \<open>out\<close> afterwards and the
  trace. The response buffer is a 256 byte array. When the block descriptor length of
  the response puts the page so late that its 16 payload bytes lie behind the array,
  the source reads behind the array: its behaviour is undefined there, and the model
  returns \<open>None\<close>.
\<close>

definition read_mode_sense_element ::
  "device \<Rightarrow> event list \<Rightarrow> ElementAddrAssignment \<Rightarrow>
   (int \<times> ElementAddrAssignment \<times> event list) option" where
  "read_mode_sense_element dev tr out =
     (let alloc = 256;
          ((rc, buf), tr') = execute_cdb dev tr mode_sense_element_cdb alloc
      in if rc \<noteq> 0 then Some (rc, out, tr')
         else if alloc < 8 then Some (1, out, tr')
         else
           let block_desc_len = unat (be16 (byte_at buf 6) (byte_at buf 7));
               page_offset = 8 + block_desc_len
           in if page_offset + 2 > alloc then Some (1, out, tr')
              else
                let page_code = byte_at buf page_offset AND 0x3F;
                    page_len = byte_at buf (page_offset + 1)
                in if page_code \<noteq> 0x1D \<or> page_len < 16 then Some (0, out, tr')
                   else if page_offset + 2 + 16 > alloc then None
                   else
                     let p = (\<lambda>i. byte_at buf (page_offset + 2 + i))
                     in Some (0,
                          \<lparr>first_transport = be16 (p 0) (p 1), num_transport = be16 (p 2) (p 3),
                           first_storage = be16 (p 4) (p 5), num_storage = be16 (p 6) (p 7),
                           first_ie = be16 (p 8) (p 9), num_ie = be16 (p 10) (p 11),
                           first_drive = be16 (p 12) (p 13), num_drive = be16 (p 14) (p 15)\<rparr>,
                          tr'))"

section \<open>Reading the status of a drive and a slot\<close>

record ElementStatus =
  addr :: u16
  full :: bool
  valid_src :: bool
  src_addr :: u16

definition zero_status :: ElementStatus where
  "zero_status = \<lparr>addr = 0, full = False, valid_src = False, src_addr = 0\<rparr>"

text \<open>
  \<^verbatim>\<open>read_element_status_info\<close> takes two pointers to status structures, either of which
  may be null. A pointer is a flag (is it non-null?) and the structure's contents.

  The inner loop over the descriptors of one page reads bytes 0, 1 and 2 of each
  descriptor whatever the descriptor length is. With a descriptor length of 1 or 2 at
  the very end of the buffer this reads behind the allocation; the behaviour of the
  source is undefined there and the model returns \<open>None\<close>. The enclosing loop has left
  before a descriptor length of 0 reaches the inner loop, so the test \<open>0 < desc_len\<close>
  never fails where the source runs the loop; it makes the recursion well-founded.
\<close>

definition update_status :: "bool \<Rightarrow> ElementStatus \<Rightarrow> bool \<Rightarrow> bool \<Rightarrow> bool \<Rightarrow> u16 \<Rightarrow> ElementStatus" where
  "update_status have st hit f svalid src =
     (if have \<and> hit then st\<lparr>full := f, valid_src := svalid, src_addr := src\<rparr> else st)"

function info_descriptors ::
  "u8 list \<Rightarrow> nat \<Rightarrow> nat \<Rightarrow> nat \<Rightarrow> nat \<Rightarrow> u16 \<Rightarrow> bool \<Rightarrow> ElementStatus \<Rightarrow> u16 \<Rightarrow> bool \<Rightarrow> ElementStatus
   \<Rightarrow> (nat \<times> ElementStatus \<times> ElementStatus) option" where
  "info_descriptors buf alloc desc_len page_end offset drive_addr have_drive drive_status
       slot_addr have_slot slot_status =
     (if 0 < desc_len \<and> offset + desc_len \<le> page_end then
        (if offset + 2 < alloc then
           let elem_addr = be16 (byte_at buf offset) (byte_at buf (offset + 1));
               elem_flags = byte_at buf (offset + 2);
               f = (elem_flags AND 0x01 \<noteq> 0);
               svalid = (if desc_len \<ge> 12 then byte_at buf (offset + 9) AND 0x80 \<noteq> 0 else False);
               src = (if desc_len \<ge> 12
                      then be16 (byte_at buf (offset + 10)) (byte_at buf (offset + 11)) else 0)
           in info_descriptors buf alloc desc_len page_end (offset + desc_len)
                drive_addr have_drive
                (update_status have_drive drive_status (elem_addr = drive_addr) f svalid src)
                slot_addr have_slot
                (update_status have_slot slot_status (elem_addr = slot_addr) f svalid src)
         else None)
      else Some (offset, drive_status, slot_status))"
  by pat_completeness auto
termination
  by (relation "measure (\<lambda>(buf, alloc, desc_len, page_end, offset, rest). page_end - offset)") auto

declare info_descriptors.simps [simp del]

lemma info_descriptors_offset:
  "info_descriptors buf alloc desc_len page_end offset da hvd ds sa hvs ss = Some (offset', ds', ss')
   \<Longrightarrow> offset \<le> offset'"
proof (induction buf alloc desc_len page_end offset da hvd ds sa hvs ss
    rule: info_descriptors.induct)
  case (1 buf alloc desc_len page_end offset da hvd ds sa hvs ss)
  show ?case
  proof (cases "0 < desc_len \<and> offset + desc_len \<le> page_end")
    case True
    with "1.prems" have inb: "offset + 2 < alloc"
      by (subst (asm) info_descriptors.simps) (auto split: if_splits)
    from "1.prems" True inb have "offset + desc_len \<le> offset'"
      by (subst (asm) info_descriptors.simps) (auto simp: Let_def dest!: "1.IH" [rotated -1])
    then show ?thesis by simp
  next
    case False
    with "1.prems" show ?thesis
      by (subst (asm) info_descriptors.simps) auto
  qed
qed

function info_pages ::
  "u8 list \<Rightarrow> nat \<Rightarrow> nat \<Rightarrow> u16 \<Rightarrow> bool \<Rightarrow> ElementStatus \<Rightarrow> u16 \<Rightarrow> bool \<Rightarrow> ElementStatus
   \<Rightarrow> (ElementStatus \<times> ElementStatus) option" where
  "info_pages buf len offset drive_addr have_drive drive_status slot_addr have_slot slot_status =
     (if offset + 8 \<le> len then
        let desc_len = unat (be16 (byte_at buf (offset + 2)) (byte_at buf (offset + 3)));
            page_bytes = be24 (byte_at buf (offset + 5)) (byte_at buf (offset + 6))
                           (byte_at buf (offset + 7));
            offset1 = offset + 8
        in if desc_len = 0 \<or> page_bytes = 0 then Some (drive_status, slot_status)
           else
             let page_end = (if offset1 + page_bytes > len then len else offset1 + page_bytes)
             in case info_descriptors buf len desc_len page_end offset1
                       drive_addr have_drive drive_status slot_addr have_slot slot_status of
                  None \<Rightarrow> None
                | Some (offset2, drive_status2, slot_status2) \<Rightarrow>
                    let offset3 = (if offset2 < page_end then page_end else offset2)
                    in info_pages buf len offset3 drive_addr have_drive drive_status2
                         slot_addr have_slot slot_status2
      else Some (drive_status, slot_status))"
  by pat_completeness auto
termination
proof (relation "measure (\<lambda>(buf, len, offset, rest). len - offset)", goal_cases)
  case 1
  show ?case by simp
next
  case (2 buf len offset da hvd ds sa hvs ss desc_len page_bytes offset1 page_end x2 offset2 y
      ds2 ss2 offset3)
  then have "info_descriptors buf len desc_len page_end offset1 da hvd ds sa hvs ss
      = Some (offset2, ds2, ss2)"
    by simp
  then have "offset1 \<le> offset2"
    by (rule info_descriptors_offset)
  with 2 show ?case
    by (auto split: if_splits)
qed

declare info_pages.simps [simp del]

definition read_element_status_info ::
  "device \<Rightarrow> event list \<Rightarrow> u16 \<Rightarrow> bool \<Rightarrow> ElementStatus \<Rightarrow> u16 \<Rightarrow> bool \<Rightarrow> ElementStatus
   \<Rightarrow> (int \<times> ElementStatus \<times> ElementStatus \<times> event list) option" where
  "read_element_status_info dev tr drive_addr have_drive drive_status slot_addr have_slot slot_status =
     (let alloc = 4096;
          ((rc, buf), tr') = execute_cdb dev tr (read_element_status_cdb 0x00 0 0xFFFF alloc) alloc
      in if rc \<noteq> 0 then Some (rc, drive_status, slot_status, tr')
         else
           let drive_status1 = (if have_drive
                  then \<lparr>addr = drive_addr, full = False, valid_src = False, src_addr = 0\<rparr>
                  else drive_status);
               slot_status1 = (if have_slot
                  then \<lparr>addr = slot_addr, full = False, valid_src = False, src_addr = 0\<rparr>
                  else slot_status);
               len = alloc
           in if len < 8 then Some (0, drive_status1, slot_status1, tr')
              else case info_pages buf len 8 drive_addr have_drive drive_status1
                          slot_addr have_slot slot_status1 of
                     None \<Rightarrow> None
                   | Some (drive_status2, slot_status2) \<Rightarrow>
                       Some (0, drive_status2, slot_status2, tr'))"

section \<open>Building the element map\<close>

lemma unat_succ_below:
  fixes a :: u16
  assumes "a < e"
  shows "unat (a + 1) = Suc (unat a)"
proof -
  from assms have "unat a < unat e"
    by (simp add: word_less_nat_alt)
  moreover have "unat e < 65536"
    using unsigned_less [of e] by simp
  ultimately have "unat a + 1 < 2 ^ LENGTH(16)"
    by simp
  then have "unat (a + 1) = unat a + unat (1::u16)"
    by (simp add: unat_add_lem [THEN iffD1])
  then show ?thesis by simp
qed

lemma unat_sub_of_nat:
  fixes r :: u16
  assumes "k \<le> unat r"
  shows "unat (r - of_nat k) = unat r - k"
proof -
  have k: "unat (of_nat k :: u16) = k"
    using assms by (rule le_unat_uoi)
  then have "(of_nat k :: u16) \<le> r"
    using assms by (simp add: word_le_nat_alt)
  then show ?thesis
    by (simp add: unat_sub k)
qed

lemma unat_sub_of_nat_less:
  fixes r :: u16
  assumes "0 < k" and "k < unat r"
  shows "unat (r - of_nat k) < unat r"
  using assms by (simp add: unat_sub_of_nat)

text \<open>
  The storage-only pagination loop of \<^verbatim>\<open>fetch_element_map\<close>: one READ ELEMENT STATUS
  per round, for \<open>remaining\<close> storage elements from \<open>start_addr\<close>, parsed into the map.
  The loop is left when a command fails, when the header declares no bytes, when a round
  adds no slot, or when the rounds have added as many slots as were asked for.
\<close>

function paginate ::
  "device \<Rightarrow> event list \<Rightarrow> u16 \<Rightarrow> u16 \<Rightarrow> ElementMap \<Rightarrow> event list \<times> ElementMap" where
  "paginate dev tr start_addr remaining m =
     (if remaining > 0 then
        let alloc = 65535;
            ((rc, buf), tr1) =
               execute_cdb dev tr (read_element_status_cdb 0x02 start_addr remaining alloc) alloc
        in if rc \<noteq> 0 then (tr1, m)
           else
             let report_bytes = be24 (byte_at buf 5) (byte_at buf 6) (byte_at buf 7)
             in if report_bytes = 0 then (tr1, m)
                else
                  let parse_len = (if report_bytes + 8 \<le> alloc then report_bytes + 8 else alloc);
                      count_before = length (slots m);
                      m1 = snd (parse_element_status_map buf parse_len m);
                      added = length (slots m1) - count_before
                  in if added = 0 then (tr1, m1)
                     else if added \<ge> unat remaining then (tr1, m1)
                     else paginate dev tr1 (start_addr + of_nat added) (remaining - of_nat added) m1
      else (tr, m))"
  by pat_completeness auto
termination
  by (relation "measure (\<lambda>(dev, tr, start_addr, remaining, m). unat remaining)")
    (auto simp del: of_nat_diff intro!: unat_sub_of_nat_less)

declare paginate.simps [simp del]

text \<open>
  The loop \<^verbatim>\<open>for (uint16_t addr = actual_end; addr < expected_end; addr++)\<close> that
  pushes the synthesized slot addresses.
\<close>

function fill_loop :: "u16 \<Rightarrow> u16 \<Rightarrow> u16 list \<Rightarrow> u16 list" where
  "fill_loop address expected_end list =
     (if address < expected_end
      then fill_loop (address + 1) expected_end (element_list_push list address)
      else list)"
  by pat_completeness auto
termination
proof (relation "measure (\<lambda>(address, expected_end, list). unat expected_end - unat address)",
    goal_cases)
  case 1
  show ?case by simp
next
  case (2 address expected_end list)
  then have "unat (address + 1) = Suc (unat address)"
    by (rule unat_succ_below)
  moreover from 2 have "unat address < unat expected_end"
    by (simp add: word_less_nat_alt)
  ultimately show ?case by simp
qed

declare fill_loop.simps [simp del]

text \<open>The block "fill in missing slots from MODE SENSE" of \<^verbatim>\<open>fetch_element_map\<close>.\<close>

definition fill_missing_slots :: "ElementAddrAssignment \<Rightarrow> u16 list \<Rightarrow> u16 list" where
  "fill_missing_slots assign list =
     (if length list < unat (num_storage assign) then
        let expected_end = first_storage assign + num_storage assign;
            actual_end = first_storage assign + of_nat (length list)
        in fill_loop actual_end expected_end list
      else list)"

text \<open>
  \<^verbatim>\<open>fetch_element_map(handle, map)\<close>. The result is the return code, the map and the
  trace; \<open>None\<close> only where \<^verbatim>\<open>read_mode_sense_element\<close> has no defined behaviour.
\<close>

definition fetch_element_map ::
  "device \<Rightarrow> event list \<Rightarrow> ElementMap \<Rightarrow> (int \<times> ElementMap \<times> event list) option" where
  "fetch_element_map dev tr m =
     (let alloc = 65535;
          ((rc, buf), tr1) =
             execute_cdb dev tr (read_element_status_cdb 0x00 0x0000 0xFFFF alloc) alloc
      in if rc \<noteq> 0 then Some (rc, m, tr1)
         else
           let report_bytes = be24 (byte_at buf 5) (byte_at buf 6) (byte_at buf 7)
           in if report_bytes = 0 then Some (1, m, tr1)
              else
                let parse_len = (if report_bytes + 8 \<le> alloc then report_bytes + 8 else alloc);
                    m1 = snd (parse_element_status_map buf parse_len m)
                in case read_mode_sense_element dev tr1 zero_assignment of
                     None \<Rightarrow> None
                   | Some (rc_ms, assign, tr2) \<Rightarrow>
                       if rc_ms = 0 \<and> num_storage assign > 0 then
                         let (tr3, m3) = paginate dev tr2 (first_storage assign)
                                           (num_storage assign) (m1\<lparr>slots := []\<rparr>);
                             m4 = m3\<lparr>slots := fill_missing_slots assign (slots m3)\<rparr>
                         in Some (if total_count m4 > 0 then 0 else 1, m4, tr3)
                       else Some (if total_count m1 > 0 then 0 else 1, m1, tr2))"

text \<open>
  \<^verbatim>\<open>fetch_element_map\<close> of \<^verbatim>\<open>xl1b_changer.c\<close>, the earlier builder: one all-types
  query with 4096 bytes, issued again with a larger buffer when the header declares
  more, and no MODE SENSE, pagination or fill-in. Its \<^verbatim>\<open>parse_element_status_map\<close>
  is the same function as that of \<^verbatim>\<open>mchanger.c\<close>.
\<close>

definition xl1b_fetch_element_map ::
  "device \<Rightarrow> event list \<Rightarrow> ElementMap \<Rightarrow> int \<times> ElementMap \<times> event list" where
  "xl1b_fetch_element_map dev tr m =
     (let alloc = 4096;
          ((rc, buf), tr1) =
             execute_cdb dev tr (read_element_status_cdb 0x00 0x0000 0xFFFF alloc) alloc
      in if rc \<noteq> 0 then (rc, m, tr1)
         else
           let report_bytes = be24 (byte_at buf 5) (byte_at buf 6) (byte_at buf 7)
           in if report_bytes = 0 then (1, m, tr1)
              else
                let needed = report_bytes + 8
                in if needed > alloc \<and> needed < 65535 then
                     let ((rc2, buf2), tr2) =
                            execute_cdb dev tr1 (read_element_status_cdb 0x00 0x0000 0xFFFF needed)
                              needed
                     in if rc2 \<noteq> 0 then (rc2, m, tr2)
                        else
                          let parse_len = (if report_bytes + 8 \<le> needed then report_bytes + 8
                                           else needed);
                              (ok, m') = parse_element_status_map buf2 parse_len m
                          in (if ok then 0 else 1, m', tr2)
                   else
                     let parse_len = (if report_bytes + 8 \<le> alloc then report_bytes + 8
                                      else alloc);
                         (ok, m') = parse_element_status_map buf parse_len m
                     in (if ok then 0 else 1, m', tr1))"

section \<open>The library interface\<close>

definition MCHANGER_OK :: int where "MCHANGER_OK = 0"
definition MCHANGER_ERR_SCSI :: int where "MCHANGER_ERR_SCSI = -3"
definition MCHANGER_ERR_INVALID :: int where "MCHANGER_ERR_INVALID = -4"
definition MCHANGER_ERR_EMPTY :: int where "MCHANGER_ERR_EMPTY = -6"

record MChangerElementStatus =
  address :: u16
  full_media :: bool       \<comment> \<open>field \<^verbatim>\<open>full\<close>\<close>
  except :: bool
  valid_source :: bool
  source_addr :: u16

text \<open>
  A changer handle is a pointer: \<open>None\<close> is the null pointer, \<open>Some dev\<close> an open
  changer whose commands reach the device \<open>dev\<close>. Slot and drive numbers are C
  \<^verbatim>\<open>int\<close>s. Each function returns its result code and the trace; \<open>None\<close> again
  marks the executions on which the source has no defined behaviour.

  The status functions write \<open>out_status\<close> only when they succeed. Their
  \<open>out_status\<close> pointer is taken to be non-null; with a null pointer they return
  \<^verbatim>\<open>MCHANGER_ERR_INVALID\<close> before anything else happens.
\<close>

definition mchanger_get_slot_status ::
  "device option \<Rightarrow> event list \<Rightarrow> int \<Rightarrow> MChangerElementStatus
   \<Rightarrow> (int \<times> MChangerElementStatus \<times> event list) option" where
  "mchanger_get_slot_status changer tr slot out_status =
     (case changer of
        None \<Rightarrow> Some (MCHANGER_ERR_INVALID, out_status, tr)
      | Some dev \<Rightarrow>
          if slot < 1 then Some (MCHANGER_ERR_INVALID, out_status, tr)
          else case fetch_element_map dev tr empty_map of
            None \<Rightarrow> None
          | Some (rc_map, m, tr1) \<Rightarrow>
              if rc_map \<noteq> 0 then Some (MCHANGER_ERR_SCSI, out_status, tr1)
              else if nat slot > length (slots m) then Some (MCHANGER_ERR_INVALID, out_status, tr1)
              else
                let slot_addr = slots m ! (nat slot - 1);
                    drive_addr = (if length (drives m) > 0 then drives m ! 0 else 0)
                in case read_element_status_info dev tr1 drive_addr False zero_status
                          slot_addr True zero_status of
                     None \<Rightarrow> None
                   | Some (rc, unused, internal_st, tr2) \<Rightarrow>
                       if rc \<noteq> 0 then Some (MCHANGER_ERR_SCSI, out_status, tr2)
                       else Some (MCHANGER_OK,
                              \<lparr>address = addr internal_st, full_media = full internal_st,
                               except = False, valid_source = valid_src internal_st,
                               source_addr = src_addr internal_st\<rparr>, tr2))"

definition mchanger_get_drive_status ::
  "device option \<Rightarrow> event list \<Rightarrow> int \<Rightarrow> MChangerElementStatus
   \<Rightarrow> (int \<times> MChangerElementStatus \<times> event list) option" where
  "mchanger_get_drive_status changer tr drive out_status =
     (case changer of
        None \<Rightarrow> Some (MCHANGER_ERR_INVALID, out_status, tr)
      | Some dev \<Rightarrow>
          if drive < 1 then Some (MCHANGER_ERR_INVALID, out_status, tr)
          else case fetch_element_map dev tr empty_map of
            None \<Rightarrow> None
          | Some (rc_map, m, tr1) \<Rightarrow>
              if rc_map \<noteq> 0 then Some (MCHANGER_ERR_SCSI, out_status, tr1)
              else if nat drive > length (drives m) then Some (MCHANGER_ERR_INVALID, out_status, tr1)
              else
                let drive_addr = drives m ! (nat drive - 1)
                in case read_element_status_info dev tr1 drive_addr True zero_status
                          0 False zero_status of
                     None \<Rightarrow> None
                   | Some (rc, internal_st, unused, tr2) \<Rightarrow>
                       if rc \<noteq> 0 then Some (MCHANGER_ERR_SCSI, out_status, tr2)
                       else Some (MCHANGER_OK,
                              \<lparr>address = addr internal_st, full_media = full internal_st,
                               except = False, valid_source = valid_src internal_st,
                               source_addr = src_addr internal_st\<rparr>, tr2))"

text \<open>
  The end of \<^verbatim>\<open>mchanger_load_slot_verbose\<close>, from the comment "Load the disc" on:
  the load move, and the wait for the mounted disc when a callback was given.
\<close>

definition load_the_disc ::
  "device \<Rightarrow> event list \<Rightarrow> u16 \<Rightarrow> u16 \<Rightarrow> u16 \<Rightarrow> bool \<Rightarrow> int \<times> event list" where
  "load_the_disc dev tr transport slot_addr drive_addr callback =
     (let (rc, tr') = cmd_move_medium dev tr transport slot_addr drive_addr
      in if rc \<noteq> 0 then (MCHANGER_ERR_SCSI, tr')
         else if callback then (MCHANGER_OK, tr' @ [HostWaitMount])
         else (MCHANGER_OK, tr'))"

definition mchanger_load_slot_verbose ::
  "device option \<Rightarrow> event list \<Rightarrow> int \<Rightarrow> int \<Rightarrow> bool \<Rightarrow> (int \<times> event list) option" where
  "mchanger_load_slot_verbose changer tr slot drive callback =
     (case changer of
        None \<Rightarrow> Some (MCHANGER_ERR_INVALID, tr)
      | Some dev \<Rightarrow>
          if slot < 1 \<or> drive < 1 then Some (MCHANGER_ERR_INVALID, tr)
          else case fetch_element_map dev tr empty_map of
            None \<Rightarrow> None
          | Some (rc_map, m, tr1) \<Rightarrow>
              if rc_map \<noteq> 0 then Some (MCHANGER_ERR_SCSI, tr1)
              else if nat slot > length (slots m) \<or> nat drive > length (drives m)
              then Some (MCHANGER_ERR_INVALID, tr1)
              else
                let transport = (if length (transports m) > 0 then transports m ! 0 else 0);
                    slot_addr = slots m ! (nat slot - 1);
                    drive_addr = drives m ! (nat drive - 1)
                in case read_element_status_info dev tr1 drive_addr True zero_status
                          slot_addr True zero_status of
                     None \<Rightarrow> None
                   | Some (rc_st, drive_st, slot_st, tr2) \<Rightarrow>
                       if rc_st \<noteq> 0 then Some (MCHANGER_ERR_SCSI, tr2)
                       else if \<not> full slot_st \<and> full drive_st \<and> valid_src drive_st
                               \<and> src_addr drive_st = slot_addr
                       then Some (MCHANGER_OK, tr2)
                       else if \<not> full slot_st \<and> \<not> (full drive_st \<and> valid_src drive_st
                               \<and> src_addr drive_st = slot_addr)
                       then Some (MCHANGER_ERR_EMPTY, tr2)
                       else if full drive_st then
                         let unload_addr = (if valid_src drive_st then src_addr drive_st
                                            else slot_addr);
                             (rc, tr3) = cmd_move_medium dev (eject_optical_media tr2)
                                           transport drive_addr unload_addr
                         in if rc \<noteq> 0 then Some (MCHANGER_ERR_SCSI, tr3)
                            else Some (load_the_disc dev tr3 transport slot_addr drive_addr callback)
                       else Some (load_the_disc dev tr2 transport slot_addr drive_addr callback))"

definition mchanger_load_slot ::
  "device option \<Rightarrow> event list \<Rightarrow> int \<Rightarrow> int \<Rightarrow> (int \<times> event list) option" where
  "mchanger_load_slot changer tr slot drive = mchanger_load_slot_verbose changer tr slot drive False"

definition mchanger_unload_drive ::
  "device option \<Rightarrow> event list \<Rightarrow> int \<Rightarrow> int \<Rightarrow> (int \<times> event list) option" where
  "mchanger_unload_drive changer tr slot drive =
     (case changer of
        None \<Rightarrow> Some (MCHANGER_ERR_INVALID, tr)
      | Some dev \<Rightarrow>
          if slot < 1 \<or> drive < 1 then Some (MCHANGER_ERR_INVALID, tr)
          else case fetch_element_map dev tr empty_map of
            None \<Rightarrow> None
          | Some (rc_map, m, tr1) \<Rightarrow>
              if rc_map \<noteq> 0 then Some (MCHANGER_ERR_SCSI, tr1)
              else if nat slot > length (slots m) \<or> nat drive > length (drives m)
              then Some (MCHANGER_ERR_INVALID, tr1)
              else
                let transport = (if length (transports m) > 0 then transports m ! 0 else 0);
                    slot_addr = slots m ! (nat slot - 1);
                    drive_addr = drives m ! (nat drive - 1);
                    (rc, tr2) = cmd_move_medium dev (eject_optical_media tr1)
                                  transport drive_addr slot_addr
                in Some (if rc = 0 then MCHANGER_OK else MCHANGER_ERR_SCSI, tr2))"

text \<open>The end of \<^verbatim>\<open>mchanger_eject\<close>: the move from the slot to the import/export element.\<close>

definition move_to_ie :: "device \<Rightarrow> event list \<Rightarrow> u16 \<Rightarrow> u16 \<Rightarrow> u16 \<Rightarrow> int \<times> event list" where
  "move_to_ie dev tr transport slot_addr ie_addr =
     (let (rc, tr') = cmd_move_medium dev tr transport slot_addr ie_addr
      in (if rc = 0 then MCHANGER_OK else MCHANGER_ERR_SCSI, tr'))"

definition mchanger_eject ::
  "device option \<Rightarrow> event list \<Rightarrow> int \<Rightarrow> int \<Rightarrow> (int \<times> event list) option" where
  "mchanger_eject changer tr slot drive =
     (case changer of
        None \<Rightarrow> Some (MCHANGER_ERR_INVALID, tr)
      | Some dev \<Rightarrow>
          if slot < 1 \<or> drive < 1 then Some (MCHANGER_ERR_INVALID, tr)
          else case fetch_element_map dev tr empty_map of
            None \<Rightarrow> None
          | Some (rc_map, m, tr1) \<Rightarrow>
              if rc_map \<noteq> 0 then Some (MCHANGER_ERR_SCSI, tr1)
              else if nat slot > length (slots m) \<or> nat drive > length (drives m)
                      \<or> length (ie m) = 0
              then Some (MCHANGER_ERR_INVALID, tr1)
              else
                let transport = (if length (transports m) > 0 then transports m ! 0 else 0);
                    slot_addr = slots m ! (nat slot - 1);
                    drive_addr = drives m ! (nat drive - 1);
                    ie_addr = ie m ! 0
                in case read_element_status_info dev tr1 drive_addr True zero_status
                          slot_addr True zero_status of
                     None \<Rightarrow> None
                   | Some (rc_st, drive_st, slot_st, tr2) \<Rightarrow>
                       if rc_st \<noteq> 0 then Some (MCHANGER_ERR_SCSI, tr2)
                       else if \<not> full slot_st \<and> full drive_st then
                         let (rc, tr3) = cmd_move_medium dev (eject_optical_media tr2)
                                           transport drive_addr slot_addr
                         in if rc \<noteq> 0 then Some (MCHANGER_ERR_SCSI, tr3)
                            else Some (move_to_ie dev tr3 transport slot_addr ie_addr)
                       else Some (move_to_ie dev tr2 transport slot_addr ie_addr))"

text \<open>
  The \<^verbatim>\<open>eject\<close> command of \<^verbatim>\<open>main\<close>, from the call of \<^verbatim>\<open>fetch_element_map\<close>
  on, with its result code. Its arguments are the slot and drive numbers as
  \<^verbatim>\<open>parse_index\<close> delivered them (the drive defaults to 1), the transport address
  when one was given, the dry-run and confirm options, and the answer of
  \<^verbatim>\<open>confirm_move\<close> where it is asked.
\<close>

definition eject_command ::
  "device \<Rightarrow> event list \<Rightarrow> nat \<Rightarrow> nat \<Rightarrow> u16 option \<Rightarrow> bool \<Rightarrow> bool \<Rightarrow> bool
   \<Rightarrow> (int \<times> event list) option" where
  "eject_command dev tr slot_index drive_index transport_arg dry_run confirm answer =
     (case fetch_element_map dev tr empty_map of
        None \<Rightarrow> None
      | Some (rc_map, m, tr1) \<Rightarrow>
          if rc_map \<noteq> 0 then Some (rc_map, tr1)
          else if slot_index = 0 \<or> slot_index > length (slots m) then Some (1, tr1)
          else if drive_index = 0 \<or> drive_index > length (drives m) then Some (1, tr1)
          else if length (ie m) = 0 then Some (1, tr1)
          else if transport_arg = None \<and> length (transports m) = 0 then Some (1, tr1)
          else
            let transport = (case transport_arg of Some t \<Rightarrow> t | None \<Rightarrow> transports m ! 0);
                slot_addr = slots m ! (slot_index - 1);
                drive_addr = drives m ! (drive_index - 1);
                ie_addr = ie m ! 0
            in case read_element_status_info dev tr1 drive_addr True zero_status
                      slot_addr True zero_status of
                 None \<Rightarrow> None
               | Some (rc_st, drive_st, slot_st, tr2) \<Rightarrow>
                   if rc_st \<noteq> 0 then Some (rc_st, tr2)
                   else
                     let disc_in_drive =
                           (\<not> full slot_st \<and> full drive_st
                            \<and> (if valid_src drive_st \<and> src_addr drive_st = slot_addr then True
                               else if \<not> valid_src drive_st then True else False))
                     in if \<not> full slot_st \<and> \<not> disc_in_drive then Some (1, tr2)
                        else if disc_in_drive then
                          (if dry_run then Some (0, tr2)
                           else if confirm \<and> \<not> answer then Some (1, tr2)
                           else
                             let (rc, tr3) = cmd_move_medium dev (eject_optical_media tr2)
                                               transport drive_addr slot_addr
                             in if rc \<noteq> 0 then Some (rc, tr3)
                                else Some (cmd_move_medium dev tr3 transport slot_addr ie_addr))
                        else
                          (if dry_run then Some (0, tr2)
                           else if confirm \<and> \<not> answer then Some (1, tr2)
                           else Some (cmd_move_medium dev tr2 transport slot_addr ie_addr)))"

section \<open>What a call issues\<close>

text \<open>
  The events a call appends to the trace \<open>tr\<close> it starts from, given the trace \<open>tr'\<close>
  it ends with.
\<close>

definition issued :: "event list \<Rightarrow> event list \<Rightarrow> event list" where
  "issued tr tr' = drop (length tr) tr'"

lemma execute_cdb_trace:
  "execute_cdb dev tr cdb n = ((rc, buf), tr') \<Longrightarrow> tr' = tr @ [Scsi cdb]"
  by (auto simp: execute_cdb_def Let_def split: prod.splits)

lemma read_mode_sense_element_trace:
  "read_mode_sense_element dev tr out = Some (rc, assign, tr')
   \<Longrightarrow> tr' = tr @ [Scsi mode_sense_element_cdb]"
  by (auto simp: read_mode_sense_element_def Let_def dest: execute_cdb_trace
      split: prod.splits if_splits)

lemma read_element_status_info_trace:
  "read_element_status_info dev tr da hvd ds sa hvs ss = Some (rc, ds', ss', tr')
   \<Longrightarrow> tr' = tr @ [Scsi (read_element_status_cdb 0x00 0 0xFFFF 4096)]"
  by (auto simp: read_element_status_info_def Let_def dest: execute_cdb_trace
      split: prod.splits if_splits option.splits)

text \<open>The storage-only READ ELEMENT STATUS commands of the pagination loop.\<close>

definition storage_query :: "event \<Rightarrow> bool" where
  "storage_query e = (\<exists>s r. e = Scsi (read_element_status_cdb 0x02 s r 65535))"


text \<open>
  One round of the pagination loop, for the proofs: the trace and the map after the
  round, and the number of slots the round added (0 when the command failed or the
  header declared no bytes, where the loop is left as well).
\<close>

definition page_round ::
  "device \<Rightarrow> event list \<Rightarrow> u16 \<Rightarrow> u16 \<Rightarrow> ElementMap \<Rightarrow> event list \<times> ElementMap \<times> nat" where
  "page_round dev tr start_addr remaining m =
     (let ((rc, buf), tr1) =
            execute_cdb dev tr (read_element_status_cdb 0x02 start_addr remaining 65535) 65535;
          report_bytes = be24 (byte_at buf 5) (byte_at buf 6) (byte_at buf 7);
          parse_len = (if report_bytes + 8 \<le> 65535 then report_bytes + 8 else 65535);
          m1 = snd (parse_element_status_map buf parse_len m)
      in if rc \<noteq> 0 \<or> report_bytes = 0 then (tr1, m, 0)
         else (tr1, m1, length (slots m1) - length (slots m)))"

lemma paginate_rec:
  "paginate dev tr start_addr remaining m =
     (if remaining > 0 then
        (case page_round dev tr start_addr remaining m of
           (tr1, m1, added) \<Rightarrow>
             if added = 0 \<or> added \<ge> unat remaining then (tr1, m1)
             else paginate dev tr1 (start_addr + of_nat added) (remaining - of_nat added) m1)
      else (tr, m))"
  by (subst paginate.simps) (auto simp: page_round_def Let_def split: prod.splits)

lemma paginate_induct_rounds [consumes 0, case_names round]:
  assumes step: "\<And>tr start_addr remaining m.
     (\<And>tr1 m1 added. remaining > 0 \<Longrightarrow> page_round dev tr start_addr remaining m = (tr1, m1, added)
        \<Longrightarrow> added \<noteq> 0 \<Longrightarrow> added < unat remaining
        \<Longrightarrow> P tr1 (start_addr + of_nat added) (remaining - of_nat added) m1)
     \<Longrightarrow> P tr start_addr remaining m"
  shows "P tr start_addr remaining m"
proof (induction "unat remaining" arbitrary: tr start_addr remaining m rule: less_induct)
  case less
  show ?case
  proof (rule step)
    fix tr1 m1 added
    assume "added \<noteq> 0" and "added < unat remaining"
    then have "unat (remaining - of_nat added) < unat remaining"
      by (simp add: unat_sub_of_nat_less)
    then show "P tr1 (start_addr + of_nat added) (remaining - of_nat added) m1"
      by (rule less)
  qed
qed

lemma page_round_trace:
  "page_round dev tr s r m = (tr1, m1, added)
   \<Longrightarrow> tr1 = tr @ [Scsi (read_element_status_cdb 0x02 s r 65535)]"
  by (auto simp: page_round_def Let_def dest: execute_cdb_trace split: prod.splits if_splits)

lemma paginate_trace:
  "paginate dev tr s r m = (tr', m') \<Longrightarrow> \<exists>evs. tr' = tr @ evs \<and> list_all storage_query evs"
proof (induction tr s r m rule: paginate_induct_rounds [where dev = dev])
  case (round tr s r m)
  show ?case
  proof (cases "r > 0")
    case False
    with round.prems show ?thesis
      by (subst (asm) paginate_rec) simp
  next
    case True
    obtain tr1 m1 added where pr: "page_round dev tr s r m = (tr1, m1, added)"
      by (metis prod_cases3)
    then have tr1: "tr1 = tr @ [Scsi (read_element_status_cdb 0x02 s r 65535)]"
      by (rule page_round_trace)
    have sq: "storage_query (Scsi (read_element_status_cdb 0x02 s r 65535))"
      unfolding storage_query_def by blast
    show ?thesis
    proof (cases "added = 0 \<or> added \<ge> unat r")
      case stop: True
      with round.prems True pr have "tr' = tr1"
        by (subst (asm) paginate_rec) auto
      with tr1 sq show ?thesis by simp
    next
      case go: False
      with round.prems True pr have "paginate dev tr1 (s + of_nat added) (r - of_nat added) m1
          = (tr', m')"
        by (subst (asm) paginate_rec) auto
      with go True pr have "\<exists>evs. tr' = tr1 @ evs \<and> list_all storage_query evs"
        by (intro round.IH) auto
      with tr1 sq show ?thesis by auto
    qed
  qed
qed

text \<open>The commands \<^verbatim>\<open>fetch_element_map\<close> issues after its first one.\<close>

definition discovery :: "event \<Rightarrow> bool" where
  "discovery e = (e = Scsi mode_sense_element_cdb \<or> storage_query e)"

lemma fetch_element_map_trace:
  assumes "fetch_element_map dev tr m = Some (rc, m', tr')"
  shows "\<exists>evs. tr' = tr @ Scsi (read_element_status_cdb 0x00 0x0000 0xFFFF 65535) # evs
           \<and> list_all discovery evs"
proof -
  obtain rc1 buf tr1 where ex: "execute_cdb dev tr
      (read_element_status_cdb 0x00 0x0000 0xFFFF 65535) 65535 = ((rc1, buf), tr1)"
    by (metis surj_pair)
  then have tr1: "tr1 = tr @ [Scsi (read_element_status_cdb 0x00 0x0000 0xFFFF 65535)]"
    by (rule execute_cdb_trace)
  show ?thesis
  proof (cases "rc1 \<noteq> 0 \<or> be24 (byte_at buf 5) (byte_at buf 6) (byte_at buf 7) = 0")
    case True
    with assms ex have "tr' = tr1"
      by (auto simp: fetch_element_map_def Let_def split: if_splits)
    with tr1 show ?thesis by simp
  next
    case False
    with assms ex obtain rc_ms assign tr2 where
      ms: "read_mode_sense_element dev tr1 zero_assignment = Some (rc_ms, assign, tr2)"
      by (auto simp: fetch_element_map_def Let_def split: if_splits option.splits)
    then have tr2: "tr2 = tr1 @ [Scsi mode_sense_element_cdb]"
      by (rule read_mode_sense_element_trace)
    show ?thesis
    proof (cases "rc_ms = 0 \<and> num_storage assign > 0")
      case False
      with assms ex \<open>\<not> (rc1 \<noteq> 0 \<or> _)\<close> ms have "tr' = tr2"
        by (auto simp: fetch_element_map_def Let_def split: if_splits)
      with tr1 tr2 show ?thesis by (simp add: discovery_def)
    next
      case True
      with assms ex \<open>\<not> (rc1 \<noteq> 0 \<or> _)\<close> ms obtain m3 where
        "paginate dev tr2 (first_storage assign) (num_storage assign) 
           ((snd (parse_element_status_map buf
              (if be24 (byte_at buf 5) (byte_at buf 6) (byte_at buf 7) + 8 \<le> 65535
               then be24 (byte_at buf 5) (byte_at buf 6) (byte_at buf 7) + 8 else 65535) m))
            \<lparr>slots := []\<rparr>) = (tr', m3)"
        by (auto simp: fetch_element_map_def Let_def split: if_splits prod.splits)
      then obtain evs where "tr' = tr2 @ evs" and "list_all storage_query evs"
        by (blast dest: paginate_trace)
      with tr1 tr2 show ?thesis
        by (auto simp: discovery_def list_all_iff)
    qed
  qed
qed


lemma issued_append [simp]: "issued tr (tr @ evs) = evs"
  by (simp add: issued_def)

lemma opcode_simps [simp]:
  "opcode (read_element_status_cdb ty st r a) = 0xB8"
  "opcode mode_sense_element_cdb = 0x5A"
  "opcode (move_medium_cdb t s d) = 0xA5"
  by (simp_all add: opcode_def byte_at_def read_element_status_cdb_def
      mode_sense_element_cdb_def move_medium_cdb_def)

lemma discovery_not_move: "discovery e \<Longrightarrow> \<not> is_move_medium e"
  by (auto simp: discovery_def storage_query_def)

lemma moves_of_discovery: "list_all discovery evs \<Longrightarrow> moves_of evs = []"
  by (induction evs) (auto simp: moves_of_def discovery_not_move)

lemma moves_of_append [simp]: "moves_of (xs @ ys) = moves_of xs @ moves_of ys"
  by (simp add: moves_of_def)

lemma moves_of_simps [simp]:
  "moves_of [] = []"
  "moves_of (HostEject # evs) = moves_of evs"
  "moves_of (HostWaitMount # evs) = moves_of evs"
  "moves_of (Scsi (move_medium_cdb t s d) # evs) = Scsi (move_medium_cdb t s d) # moves_of evs"
  "moves_of (Scsi (read_element_status_cdb ty st r a) # evs) = moves_of evs"
  "moves_of (Scsi mode_sense_element_cdb # evs) = moves_of evs"
  by (simp_all add: moves_of_def)

lemma fetch_element_map_issued:
  assumes "fetch_element_map dev tr m = Some (rc, m', tr')"
  shows "\<exists>evs. tr' = tr @ evs \<and> moves_of evs = [] \<and> list_all is_scsi evs \<and> evs \<noteq> []"
proof -
  from assms obtain evs where
    "tr' = tr @ Scsi (read_element_status_cdb 0x00 0x0000 0xFFFF 65535) # evs"
    and "list_all discovery evs"
    by (blast dest: fetch_element_map_trace)
  moreover from this have "list_all is_scsi evs"
    by (auto simp: list_all_iff discovery_def storage_query_def)
  ultimately show ?thesis
    by (auto simp: moves_of_discovery)
qed

lemma cmd_move_medium_result:
  "cmd_move_medium dev tr t s d =
     (if fst (dev tr (move_medium_cdb t s d)) then 0 else 1, tr @ [Scsi (move_medium_cdb t s d)])"
  by (simp add: cmd_move_medium_def execute_cdb_def Let_def split: prod.splits)


section \<open>A simulated changer\<close>

text \<open>
  Concrete runs need a concrete device. The simulated changer answers the all-types
  READ ELEMENT STATUS with a fixed report, MODE SENSE and the storage-only READ ELEMENT
  STATUS as its parameters say, and MOVE MEDIUM with success or failure as its last
  parameter says. The report holds one transport element (0x0001), two slots, one
  import/export element (0x0200) and one drive (0x0100), in 12 byte descriptors.
\<close>

definition descriptor :: "u16 \<Rightarrow> u8 \<Rightarrow> u8 \<Rightarrow> u16 \<Rightarrow> u8 list" where
  "descriptor a flags svalid src =
     [hi_byte a, lo_byte a, flags, 0, 0, 0, 0, 0, 0, svalid, hi_byte src, lo_byte src]"

definition status_page :: "u8 \<Rightarrow> u8 list \<Rightarrow> u8 list" where
  "status_page type descs = [type, 0, 0, 12, 0, 0, 0, of_nat (length descs)] @ descs"

definition status_report :: "nat \<Rightarrow> u8 list \<Rightarrow> u8 list" where
  "status_report declared pages =
     [0, 0, 0, 0, 0, of_nat ((declared div 65536) mod 256), of_nat ((declared div 256) mod 256),
      of_nat (declared mod 256)] @ pages"

definition changer_status :: "u16 \<Rightarrow> u8 \<Rightarrow> u16 \<Rightarrow> u8 \<Rightarrow> u8 \<Rightarrow> u8 \<Rightarrow> u16 \<Rightarrow> u8 list" where
  "changer_status slot1 slot1_flags slot2 slot2_flags drive_flags drive_svalid drive_src =
     status_report 92
       (status_page 1 (descriptor 0x0001 0 0 0)
        @ status_page 2 (descriptor slot1 slot1_flags 0 0 @ descriptor slot2 slot2_flags 0 0)
        @ status_page 3 (descriptor 0x0200 0 0 0)
        @ status_page 4 (descriptor 0x0100 drive_flags drive_svalid drive_src))"

definition mode_sense_data :: "u16 \<Rightarrow> u16 \<Rightarrow> u8 list" where
  "mode_sense_data first_st num_st =
     [0, 24, 0, 0, 0, 0, 0, 0,
      0x1D, 18, 0x00, 0x01, 0, 1, hi_byte first_st, lo_byte first_st, hi_byte num_st, lo_byte num_st,
      0x02, 0x00, 0, 1, 0x01, 0x00, 0, 1, 0, 0]"

definition toy_changer ::
  "u8 list \<Rightarrow> bool \<times> u8 list \<Rightarrow> (u16 \<Rightarrow> bool \<times> u8 list) \<Rightarrow> bool \<Rightarrow> device" where
  "toy_changer status mode storage moves_ok tr cdb =
     (if opcode cdb = 0xB8 then
        (if byte_at cdb 1 = 0x00 then (True, status)
         else storage (be16 (byte_at cdb 2) (byte_at cdb 3)))
      else if opcode cdb = 0x5A then mode
      else if opcode cdb = 0xA5 then (moves_ok, [])
      else (False, []))"

definition two_slot_map :: ElementMap where
  "two_slot_map = \<lparr>transports = [0x0001], slots = [0x1000, 0x1001], drives = [0x0100], ie = [0x0200]\<rparr>"

text \<open>Evaluation of the model on the simulated changer.\<close>

lemmas fixture_defs = changer_status_def status_report_def status_page_def descriptor_def
  mode_sense_data_def
lemmas parse_defs = parse_element_status_map_def parse_pages.simps parse_descriptors.simps
  be24_def be24_def all_zero_def push_by_type_def element_list_push_def total_count_def

lemma hi_lo_simps [simp]:
  "hi_byte 0x1000 = 0x10" "lo_byte 0x1000 = 0" "hi_byte 0x1001 = 0x10" "lo_byte 0x1001 = 1"
  "hi_byte 0x0001 = 0" "lo_byte 0x0001 = 1" "hi_byte 0x0100 = 1" "lo_byte 0x0100 = 0"
  "hi_byte 0x0200 = 2" "lo_byte 0x0200 = 0" "hi_byte 0xFFFF = 0xFF" "lo_byte 0xFFFF = 0xFF"
  "hi_byte 0 = 0" "lo_byte 0 = 0"
  by (simp_all add: hi_byte_def lo_byte_def)

lemma byte_at_simps [simp]:
  "byte_at [] n = 0"
  "byte_at (x # xs) 0 = x"
  "byte_at (x # xs) (Suc n) = byte_at xs n"
  "byte_at (x # xs) (numeral k) = byte_at xs (pred_numeral k)"
  by (simp_all add: byte_at_def numeral_eq_Suc)

lemma all_zero_0 [simp]: "all_zero buf offset 0"
  by (simp add: all_zero_def)

lemma all_zero_Suc [simp]:
  "all_zero buf offset (Suc n) = (byte_at buf offset = 0 \<and> all_zero buf (Suc offset) n)"
proof -
  have "[0..<Suc n] = 0 # map Suc [0..<n]"
    by (simp add: upt_conv_Cons map_Suc_upt del: upt_Suc)
  then have "all_zero buf offset (Suc n)
      = list_all (\<lambda>i. byte_at buf (offset + i) = 0) (0 # map Suc [0..<n])"
    by (simp only: all_zero_def)
  also have "\<dots> = (byte_at buf offset = 0 \<and> all_zero buf (Suc offset) n)"
    by (simp add: all_zero_def list.pred_map comp_def)
  finally show ?thesis .
qed

lemma all_zero_numeral [simp]:
  "all_zero buf offset (numeral k)
     = (byte_at buf offset = 0 \<and> all_zero buf (Suc offset) (pred_numeral k))"
  by (simp add: numeral_eq_Suc)

lemma be16_eval [simp]:
  "be16 0 0 = 0" "be16 0 1 = 1"
  "be16 0 (numeral b) = ucast (numeral b :: u8)"
  "be16 1 0 = 0x100" "be16 1 1 = 0x101"
  "be16 1 (numeral b) = 0x100 OR ucast (numeral b :: u8)"
  "be16 (numeral a) 0 = push_bit 8 (ucast (numeral a :: u8))"
  "be16 (numeral a) 1 = push_bit 8 (ucast (numeral a :: u8)) OR 1"
  "be16 (numeral a) (numeral b) = push_bit 8 (ucast (numeral a :: u8)) OR ucast (numeral b :: u8)"
  by (simp_all add: be16_def)

lemma be16_hi_lo [simp]: "be16 (hi_byte w) (lo_byte w) = w"
proof -
  have m: "(0xFF::u16) = mask 8"
    by (simp add: mask_eq_exp_minus_1)
  show ?thesis
    unfolding be16_def hi_byte_def lo_byte_def m
    by (rule bit_word_eqI) (auto simp: bit_simps)
qed

lemma cdb_fields [simp]:
  "byte_at (read_element_status_cdb ty s r a) (Suc 0) = ty"
  "byte_at (read_element_status_cdb ty s r a) 2 = hi_byte s"
  "byte_at (read_element_status_cdb ty s r a) 3 = lo_byte s"
  by (simp_all add: read_element_status_cdb_def)

lemma parse_two_slots:
  "parse_element_status_map (changer_status 0x1000 f1 0x1001 f2 df sv src) 100 empty_map
     = (True, two_slot_map)"
  by (simp add: fixture_defs parse_defs empty_map_def two_slot_map_def Let_def)

lemma fetch_two_slots:
  "fetch_element_map (toy_changer (changer_status 0x1000 f1 0x1001 f2 df sv src) (False, []) st ok)
       tr empty_map
     = Some (0, two_slot_map,
         tr @ [Scsi (read_element_status_cdb 0x00 0x0000 0xFFFF 65535), Scsi mode_sense_element_cdb])"
proof -
  have hdr: "be24 (byte_at (changer_status 0x1000 f1 0x1001 f2 df sv src) 5)
      (byte_at (changer_status 0x1000 f1 0x1001 f2 df sv src) 6)
      (byte_at (changer_status 0x1000 f1 0x1001 f2 df sv src) 7) = 92"
    by (simp add: fixture_defs be24_def)
  have len: "length (changer_status 0x1000 f1 0x1001 f2 df sv src) = 100"
    by (simp add: fixture_defs)
  show ?thesis
    by (simp add: fetch_element_map_def execute_cdb_def toy_changer_def Let_def hdr len
        parse_two_slots read_mode_sense_element_def two_slot_map_def total_count_def)
qed

lemma status_two_slots:
  "read_element_status_info (toy_changer (changer_status 0x1000 f1 0x1001 f2 df sv src) md st ok)
       tr 0x0100 True zero_status 0x1000 True zero_status
     = Some (0, \<lparr>addr = 0x0100, full = (df AND 1 \<noteq> 0), valid_src = (sv AND 0x80 \<noteq> 0), src_addr = src\<rparr>,
          \<lparr>addr = 0x1000, full = (f1 AND 1 \<noteq> 0), valid_src = False, src_addr = 0\<rparr>,
          tr @ [Scsi (read_element_status_cdb 0x00 0 0xFFFF 4096)])"
  by (simp add: read_element_status_info_def execute_cdb_def toy_changer_def Let_def
      info_pages.simps info_descriptors.simps update_status_def fixture_defs be24_def)


definition discovery_trace :: "event list" where
  "discovery_trace =
     [Scsi (read_element_status_cdb 0x00 0x0000 0xFFFF 65535), Scsi mode_sense_element_cdb]"

definition status_query :: event where
  "status_query = Scsi (read_element_status_cdb 0x00 0 0xFFFF 4096)"

definition two_slot_changer :: "u8 \<Rightarrow> u8 \<Rightarrow> u8 \<Rightarrow> u8 \<Rightarrow> u16 \<Rightarrow> bool \<Rightarrow> device" where
  "two_slot_changer slot1_flags slot2_flags drive_flags drive_svalid drive_src moves_ok =
     toy_changer (changer_status 0x1000 slot1_flags 0x1001 slot2_flags drive_flags drive_svalid drive_src)
       (False, []) (\<lambda>start. (False, [])) moves_ok"

lemma fetch_two_slot_changer:
  "fetch_element_map (two_slot_changer f1 f2 df sv src ok) [] empty_map
     = Some (0, two_slot_map, discovery_trace)"
  by (simp add: two_slot_changer_def fetch_two_slots discovery_trace_def)

lemma status_two_slot_changer:
  "read_element_status_info (two_slot_changer f1 f2 df sv src ok) tr
       0x0100 True zero_status 0x1000 True zero_status
     = Some (0, \<lparr>addr = 0x0100, full = (df AND 1 \<noteq> 0), valid_src = (sv AND 0x80 \<noteq> 0), src_addr = src\<rparr>,
          \<lparr>addr = 0x1000, full = (f1 AND 1 \<noteq> 0), valid_src = False, src_addr = 0\<rparr>,
          tr @ [status_query])"
  by (simp add: two_slot_changer_def status_two_slots status_query_def)

lemma two_slot_map_simps [simp]:
  "transports two_slot_map = [0x0001]" "slots two_slot_map = [0x1000, 0x1001]"
  "drives two_slot_map = [0x0100]" "ie two_slot_map = [0x0200]"
  by (simp_all add: two_slot_map_def)

lemma two_slot_changer_move:
  "fst (two_slot_changer f1 f2 df sv src ok tr (move_medium_cdb t s d)) = ok"
  by (simp add: two_slot_changer_def toy_changer_def)

section \<open>Loading a slot whose medium is already in the drive\<close>

text \<open>
  Claim C2, as amended. A call of \<open>load(slot, drive)\<close> that finds the element map,
  has both indices in range and reads a status in which the drive is full with a valid
  source equal to the address of the slot, and in which the slot itself is empty,
  returns \<open>MCHANGER_OK\<close> and issues no MOVE MEDIUM command: its trace ends with the
  status read.
\<close>

theorem load_already_loaded:
  assumes fetch: "fetch_element_map dev tr empty_map = Some (0, m, tr1)"
    and range: "1 \<le> slot" "nat slot \<le> length (slots m)" "1 \<le> drive" "nat drive \<le> length (drives m)"
    and status: "read_element_status_info dev tr1 (drives m ! (nat drive - 1)) True zero_status
        (slots m ! (nat slot - 1)) True zero_status = Some (0, drive_st, slot_st, tr2)"
    and drive: "full drive_st" "valid_src drive_st" "src_addr drive_st = slots m ! (nat slot - 1)"
    and slot_empty: "\<not> full slot_st"
  shows "mchanger_load_slot_verbose (Some dev) tr slot drive callback = Some (MCHANGER_OK, tr2)
     \<and> moves_of (issued tr tr2) = []"
proof -
  from fetch obtain evs where evs: "tr1 = tr @ evs" "moves_of evs = []"
    by (blast dest: fetch_element_map_issued)
  from status have tr2: "tr2 = tr1 @ [Scsi (read_element_status_cdb 0x00 0 0xFFFF 4096)]"
    by (rule read_element_status_info_trace)
  have "mchanger_load_slot_verbose (Some dev) tr slot drive callback = Some (MCHANGER_OK, tr2)"
    using fetch range status drive slot_empty
    by (simp add: mchanger_load_slot_verbose_def Let_def)
  moreover have "moves_of (issued tr tr2) = []"
    using evs tr2 by simp
  ultimately show ?thesis by simp
qed

text \<open>
  The case on the simulated changer: slot 1 (address 0x1000) is empty, the drive is full
  with valid source 0x1000.
\<close>

theorem load_already_loaded_witness:
  "mchanger_load_slot_verbose (Some (two_slot_changer 0x00 0x01 0x01 0x80 0x1000 True)) [] 1 1 False
     = Some (MCHANGER_OK, discovery_trace @ [status_query])
   \<and> moves_of (issued [] (discovery_trace @ [status_query])) = []"
proof -
  let ?dev = "two_slot_changer 0x00 0x01 0x01 0x80 0x1000 True"
  have fetch: "fetch_element_map ?dev [] empty_map = Some (0, two_slot_map, discovery_trace)"
    by (rule fetch_two_slot_changer)
  have status: "read_element_status_info ?dev discovery_trace
      (drives two_slot_map ! (nat 1 - 1)) True zero_status
      (slots two_slot_map ! (nat 1 - 1)) True zero_status
      = Some (0, \<lparr>addr = 0x0100, full = True, valid_src = True, src_addr = 0x1000\<rparr>,
          \<lparr>addr = 0x1000, full = False, valid_src = False, src_addr = 0\<rparr>,
          discovery_trace @ [status_query])"
    by (simp add: status_two_slot_changer)
  show ?thesis
    by (rule load_already_loaded [OF fetch _ _ _ _ status]) simp_all
qed

text \<open>
  Without the condition on the slot the claim fails. When the slot reports full as
  well, the two tests after the status read are both passed over, and the drive is
  unloaded and loaded again: two MOVE MEDIUM commands.
\<close>

theorem load_already_loaded_counterexample:
  "read_element_status_info (two_slot_changer 0x01 0x01 0x01 0x80 0x1000 True) discovery_trace
       0x0100 True zero_status 0x1000 True zero_status
     = Some (0, \<lparr>addr = 0x0100, full = True, valid_src = True, src_addr = 0x1000\<rparr>,
          \<lparr>addr = 0x1000, full = True, valid_src = False, src_addr = 0\<rparr>,
          discovery_trace @ [status_query])
   \<and> mchanger_load_slot_verbose (Some (two_slot_changer 0x01 0x01 0x01 0x80 0x1000 True)) [] 1 1 False
     = Some (MCHANGER_OK, discovery_trace @ [status_query, HostEject,
          Scsi (move_medium_cdb 0x0001 0x0100 0x1000), Scsi (move_medium_cdb 0x0001 0x1000 0x0100)])"
  by (simp add: status_two_slot_changer mchanger_load_slot_verbose_def fetch_two_slot_changer
      cmd_move_medium_result two_slot_changer_move load_the_disc_def eject_optical_media_def)


section \<open>Loading into an occupied drive\<close>

lemma load_the_disc_result:
  "load_the_disc dev tr t s d cb = (rc, tr')
   \<Longrightarrow> \<exists>e. tr' = tr @ e \<and> moves_of e = [Scsi (move_medium_cdb t s d)]"
  by (auto simp: load_the_disc_def cmd_move_medium_result split: if_splits)

text \<open>
  Claim C3, as amended. A call of \<open>load(slot, drive)\<close> that finds the element map,
  has both indices in range and reads a status in which the drive is full and the
  target slot is full issues the unload move first: from the drive to the source
  address the drive records, or to the target slot when it records none. When the
  device accepts the unload move, the MOVE MEDIUM commands of the call are the unload
  move and then the load move from the slot to the drive. When the device refuses it,
  the call returns \<open>MCHANGER_ERR_SCSI\<close> and the unload move is its only MOVE MEDIUM
  command.
\<close>

theorem load_unloads_first:
  assumes fetch: "fetch_element_map dev tr empty_map = Some (0, m, tr1)"
    and range: "1 \<le> slot" "nat slot \<le> length (slots m)" "1 \<le> drive" "nat drive \<le> length (drives m)"
    and status: "read_element_status_info dev tr1 (drives m ! (nat drive - 1)) True zero_status
        (slots m ! (nat slot - 1)) True zero_status = Some (0, drive_st, slot_st, tr2)"
    and occupied: "full drive_st" and slot_full: "full slot_st"
    and transport: "transport = (if length (transports m) > 0 then transports m ! 0 else 0)"
    and unload: "unload = move_medium_cdb transport (drives m ! (nat drive - 1))
        (if valid_src drive_st then src_addr drive_st else slots m ! (nat slot - 1))"
    and load: "load = move_medium_cdb transport (slots m ! (nat slot - 1)) (drives m ! (nat drive - 1))"
  shows "\<exists>rc tr'. mchanger_load_slot_verbose (Some dev) tr slot drive callback = Some (rc, tr')
     \<and> (if fst (dev (tr2 @ [HostEject]) unload)
         then moves_of (issued tr tr') = [Scsi unload, Scsi load]
         else rc = MCHANGER_ERR_SCSI \<and> moves_of (issued tr tr') = [Scsi unload])"
proof -
  from fetch obtain evs where evs: "tr1 = tr @ evs" "moves_of evs = []"
    by (blast dest: fetch_element_map_issued)
  from status have tr2: "tr2 = tr1 @ [Scsi (read_element_status_cdb 0x00 0 0xFFFF 4096)]"
    by (rule read_element_status_info_trace)
  define pre where "pre = evs @ [Scsi (read_element_status_cdb 0x00 0 0xFFFF 4096), HostEject,
    Scsi unload]"
  define tr3 where "tr3 = tr2 @ [HostEject, Scsi unload]"
  have tr3: "tr3 = tr @ pre"
    by (simp add: tr3_def pre_def tr2 evs)
  have pre: "moves_of pre = [Scsi unload]"
    by (simp add: pre_def evs unload)
  have unfold: "mchanger_load_slot_verbose (Some dev) tr slot drive callback =
      (if fst (dev (tr2 @ [HostEject]) unload)
       then Some (load_the_disc dev tr3 transport (slots m ! (nat slot - 1))
              (drives m ! (nat drive - 1)) callback)
       else Some (MCHANGER_ERR_SCSI, tr3))"
    using fetch range status occupied slot_full
    by (simp add: mchanger_load_slot_verbose_def Let_def cmd_move_medium_result
        eject_optical_media_def transport unload tr3_def)
  show ?thesis
  proof (cases "fst (dev (tr2 @ [HostEject]) unload)")
    case False
    with unfold tr3 pre show ?thesis by simp
  next
    case True
    obtain rc tr' where l: "load_the_disc dev tr3 transport (slots m ! (nat slot - 1))
              (drives m ! (nat drive - 1)) callback = (rc, tr')"
      by (metis surj_pair)
    then obtain e where e: "tr' = tr3 @ e" and me: "moves_of e = [Scsi load]"
      by (auto simp: load dest: load_the_disc_result)
    from e tr3 have eq: "tr' = tr @ (pre @ e)"
      by simp
    have "moves_of (issued tr tr') = moves_of (pre @ e)"
      unfolding eq by (simp only: issued_append)
    also have "\<dots> = [Scsi unload, Scsi load]"
      using pre me by simp
    finally have "moves_of (issued tr tr') = [Scsi unload, Scsi load]" .
    with True unfold l show ?thesis by simp
  qed
qed

text \<open>
  On the simulated changer, with slot 1 full and the drive holding the medium of slot 2:
  once with a device that accepts moves, once with one that refuses them.
\<close>

theorem load_unloads_first_witness:
  "(\<exists>rc tr'. mchanger_load_slot_verbose (Some (two_slot_changer 0x01 0x00 0x01 0x80 0x1001 True))
        [] 1 1 False = Some (rc, tr')
      \<and> moves_of (issued [] tr')
          = [Scsi (move_medium_cdb 0x0001 0x0100 0x1001), Scsi (move_medium_cdb 0x0001 0x1000 0x0100)])
   \<and> (\<exists>rc tr'. mchanger_load_slot_verbose (Some (two_slot_changer 0x01 0x00 0x01 0x80 0x1001 False))
        [] 1 1 False = Some (rc, tr')
      \<and> rc = MCHANGER_ERR_SCSI
      \<and> moves_of (issued [] tr') = [Scsi (move_medium_cdb 0x0001 0x0100 0x1001)])"
proof -
  have status: "read_element_status_info (two_slot_changer 0x01 0x00 0x01 0x80 0x1001 ok)
      discovery_trace
      (drives two_slot_map ! (nat 1 - 1)) True zero_status
      (slots two_slot_map ! (nat 1 - 1)) True zero_status
      = Some (0, \<lparr>addr = 0x0100, full = True, valid_src = True, src_addr = 0x1001\<rparr>,
          \<lparr>addr = 0x1000, full = True, valid_src = False, src_addr = 0\<rparr>,
          discovery_trace @ [status_query])" for ok
    by (simp add: status_two_slot_changer)
  note inst = load_unloads_first [where callback = False and slot = 1 and drive = 1,
      OF fetch_two_slot_changer _ _ _ _ status _ _ refl refl refl]
  have "\<exists>rc tr'. mchanger_load_slot_verbose (Some (two_slot_changer 0x01 0x00 0x01 0x80 0x1001 True))
        [] 1 1 False = Some (rc, tr')
      \<and> moves_of (issued [] tr')
          = [Scsi (move_medium_cdb 0x0001 0x0100 0x1001), Scsi (move_medium_cdb 0x0001 0x1000 0x0100)]"
    using inst [of True] by (simp add: two_slot_changer_move)
  moreover
  have "\<exists>rc tr'. mchanger_load_slot_verbose (Some (two_slot_changer 0x01 0x00 0x01 0x80 0x1001 False))
        [] 1 1 False = Some (rc, tr')
      \<and> rc = MCHANGER_ERR_SCSI
      \<and> moves_of (issued [] tr') = [Scsi (move_medium_cdb 0x0001 0x0100 0x1001)]"
    using inst [of False] by (simp add: two_slot_changer_move)
  ultimately show ?thesis
    by simp
qed

text \<open>
  Without the condition on the slot the claim fails. With the drive holding the medium
  of slot 2 and slot 1 empty, loading slot 1 returns \<open>MCHANGER_ERR_EMPTY\<close> and moves
  nothing.
\<close>

theorem load_unloads_first_counterexample:
  "read_element_status_info (two_slot_changer 0x00 0x00 0x01 0x80 0x1001 True) discovery_trace
       0x0100 True zero_status 0x1000 True zero_status
     = Some (0, \<lparr>addr = 0x0100, full = True, valid_src = True, src_addr = 0x1001\<rparr>,
          \<lparr>addr = 0x1000, full = False, valid_src = False, src_addr = 0\<rparr>,
          discovery_trace @ [status_query])
   \<and> mchanger_load_slot_verbose (Some (two_slot_changer 0x00 0x00 0x01 0x80 0x1001 True)) [] 1 1 False
     = Some (MCHANGER_ERR_EMPTY, discovery_trace @ [status_query])
   \<and> moves_of (discovery_trace @ [status_query]) = []"
  by (simp add: status_two_slot_changer mchanger_load_slot_verbose_def fetch_two_slot_changer
      discovery_trace_def status_query_def)


section \<open>Indices out of range\<close>

text \<open>
  Claim C4, as amended. With a slot or drive index below 1, load, unload and eject
  return \<open>MCHANGER_ERR_INVALID\<close> and leave the trace as it was: no command is issued.
  With both indices at least 1 and one of them greater than the count that
  \<^verbatim>\<open>fetch_element_map\<close> discovers, they return \<open>MCHANGER_ERR_INVALID\<close> after the
  commands of \<^verbatim>\<open>fetch_element_map\<close> alone: SCSI commands, at least one, none of
  them a MOVE MEDIUM.
\<close>

theorem out_of_range_invalid:
  "(slot < 1 \<or> drive < 1 \<longrightarrow>
      mchanger_load_slot_verbose (Some dev) tr slot drive callback = Some (MCHANGER_ERR_INVALID, tr)
      \<and> mchanger_unload_drive (Some dev) tr slot drive = Some (MCHANGER_ERR_INVALID, tr)
      \<and> mchanger_eject (Some dev) tr slot drive = Some (MCHANGER_ERR_INVALID, tr))
   \<and> (1 \<le> slot \<and> 1 \<le> drive \<and> fetch_element_map dev tr empty_map = Some (0, m, tr1)
        \<and> (nat slot > length (slots m) \<or> nat drive > length (drives m)) \<longrightarrow>
      mchanger_load_slot_verbose (Some dev) tr slot drive callback = Some (MCHANGER_ERR_INVALID, tr1)
      \<and> mchanger_unload_drive (Some dev) tr slot drive = Some (MCHANGER_ERR_INVALID, tr1)
      \<and> mchanger_eject (Some dev) tr slot drive = Some (MCHANGER_ERR_INVALID, tr1)
      \<and> (\<exists>evs. tr1 = tr @ evs \<and> evs \<noteq> [] \<and> list_all is_scsi evs \<and> moves_of evs = []))"
proof (intro conjI impI)
  assume "slot < 1 \<or> drive < 1"
  then show "mchanger_load_slot_verbose (Some dev) tr slot drive callback
      = Some (MCHANGER_ERR_INVALID, tr)"
    and "mchanger_unload_drive (Some dev) tr slot drive = Some (MCHANGER_ERR_INVALID, tr)"
    and "mchanger_eject (Some dev) tr slot drive = Some (MCHANGER_ERR_INVALID, tr)"
    by (simp_all add: mchanger_load_slot_verbose_def mchanger_unload_drive_def mchanger_eject_def)
next
  assume a: "1 \<le> slot \<and> 1 \<le> drive \<and> fetch_element_map dev tr empty_map = Some (0, m, tr1)
        \<and> (nat slot > length (slots m) \<or> nat drive > length (drives m))"
  then show "mchanger_load_slot_verbose (Some dev) tr slot drive callback
      = Some (MCHANGER_ERR_INVALID, tr1)"
    and "mchanger_unload_drive (Some dev) tr slot drive = Some (MCHANGER_ERR_INVALID, tr1)"
    and "mchanger_eject (Some dev) tr slot drive = Some (MCHANGER_ERR_INVALID, tr1)"
    by (auto simp: mchanger_load_slot_verbose_def mchanger_unload_drive_def mchanger_eject_def)
  from a have "fetch_element_map dev tr empty_map = Some (0, m, tr1)"
    by simp
  then obtain evs where "tr1 = tr @ evs" "moves_of evs = []" "list_all is_scsi evs" "evs \<noteq> []"
    by (blast dest: fetch_element_map_issued)
  then show "\<exists>evs. tr1 = tr @ evs \<and> evs \<noteq> [] \<and> list_all is_scsi evs \<and> moves_of evs = []"
    by blast
qed

text \<open>Index 0, and indices 3 and 2 on the simulated changer with its two slots and one drive.\<close>

theorem out_of_range_invalid_witness:
  "mchanger_load_slot_verbose (Some (two_slot_changer 0x01 0x01 0x00 0x00 0 True)) [] 0 1 False
      = Some (MCHANGER_ERR_INVALID, [])
   \<and> mchanger_unload_drive (Some (two_slot_changer 0x01 0x01 0x00 0x00 0 True)) [] 1 0
      = Some (MCHANGER_ERR_INVALID, [])
   \<and> mchanger_eject (Some (two_slot_changer 0x01 0x01 0x00 0x00 0 True)) [] 0 0
      = Some (MCHANGER_ERR_INVALID, [])
   \<and> mchanger_load_slot_verbose (Some (two_slot_changer 0x01 0x01 0x00 0x00 0 True)) [] 3 1 False
      = Some (MCHANGER_ERR_INVALID, discovery_trace)
   \<and> mchanger_unload_drive (Some (two_slot_changer 0x01 0x01 0x00 0x00 0 True)) [] 3 1
      = Some (MCHANGER_ERR_INVALID, discovery_trace)
   \<and> mchanger_eject (Some (two_slot_changer 0x01 0x01 0x00 0x00 0 True)) [] 1 2
      = Some (MCHANGER_ERR_INVALID, discovery_trace)
   \<and> moves_of discovery_trace = []"
proof -
  let ?dev = "two_slot_changer 0x01 0x01 0x00 0x00 0 True"
  note f = fetch_two_slot_changer [of "0x01" "0x01" "0x00" "0x00" 0 True]
  have md: "moves_of discovery_trace = []"
    by (simp add: discovery_trace_def)
  show ?thesis
    using out_of_range_invalid [of 0 1 ?dev "[]" False two_slot_map discovery_trace]
      out_of_range_invalid [of 1 0 ?dev "[]" False two_slot_map discovery_trace]
      out_of_range_invalid [of 0 0 ?dev "[]" False two_slot_map discovery_trace]
      out_of_range_invalid [of 3 1 ?dev "[]" False two_slot_map discovery_trace]
      out_of_range_invalid [of 1 2 ?dev "[]" False two_slot_map discovery_trace]
    by (simp add: f md)
qed

text \<open>
  The claim as stated fails for an index greater than the count: the count is known
  only after discovery, so slot 3 of 2 is refused after a READ ELEMENT STATUS and a
  MODE SENSE have been issued.
\<close>

theorem out_of_range_invalid_counterexample:
  "fetch_element_map (two_slot_changer 0x01 0x01 0x00 0x00 0 True) [] empty_map
      = Some (0, \<lparr>transports = [0x0001], slots = [0x1000, 0x1001], drives = [0x0100], ie = [0x0200]\<rparr>,
          [Scsi (read_element_status_cdb 0x00 0x0000 0xFFFF 65535), Scsi mode_sense_element_cdb])
   \<and> mchanger_load_slot_verbose (Some (two_slot_changer 0x01 0x01 0x00 0x00 0 True)) [] 3 1 False
      = Some (MCHANGER_ERR_INVALID,
          [Scsi (read_element_status_cdb 0x00 0x0000 0xFFFF 65535), Scsi mode_sense_element_cdb])
   \<and> list_all is_scsi
        [Scsi (read_element_status_cdb 0x00 0x0000 0xFFFF 65535), Scsi mode_sense_element_cdb]"
  by (simp add: fetch_two_slot_changer mchanger_load_slot_verbose_def two_slot_map_def
      discovery_trace_def)

section \<open>Ejecting from an empty slot\<close>

text \<open>
  Claim C5 does not hold of \<^verbatim>\<open>mchanger_eject\<close>. First run: slot 1 and the drive are
  both empty; the call moves from the empty slot to the import/export element and
  returns \<open>MCHANGER_OK\<close>. Second run: slot 1 is empty and the drive holds the medium
  of slot 2 (valid source 0x1001); the call moves that medium into slot 1 and on to
  the import/export element. Neither run returns \<open>MCHANGER_ERR_EMPTY\<close>.
\<close>

theorem eject_empty_slot_moves:
  "read_element_status_info (two_slot_changer 0x00 0x01 0x00 0x00 0 True) discovery_trace
       0x0100 True zero_status 0x1000 True zero_status
     = Some (0, \<lparr>addr = 0x0100, full = False, valid_src = False, src_addr = 0\<rparr>,
          \<lparr>addr = 0x1000, full = False, valid_src = False, src_addr = 0\<rparr>,
          discovery_trace @ [status_query])
   \<and> mchanger_eject (Some (two_slot_changer 0x00 0x01 0x00 0x00 0 True)) [] 1 1
     = Some (MCHANGER_OK,
          discovery_trace @ [status_query, Scsi (move_medium_cdb 0x0001 0x1000 0x0200)])
   \<and> read_element_status_info (two_slot_changer 0x00 0x00 0x01 0x80 0x1001 True) discovery_trace
       0x0100 True zero_status 0x1000 True zero_status
     = Some (0, \<lparr>addr = 0x0100, full = True, valid_src = True, src_addr = 0x1001\<rparr>,
          \<lparr>addr = 0x1000, full = False, valid_src = False, src_addr = 0\<rparr>,
          discovery_trace @ [status_query])
   \<and> mchanger_eject (Some (two_slot_changer 0x00 0x00 0x01 0x80 0x1001 True)) [] 1 1
     = Some (MCHANGER_OK,
          discovery_trace @ [status_query, HostEject, Scsi (move_medium_cdb 0x0001 0x0100 0x1000),
            Scsi (move_medium_cdb 0x0001 0x1000 0x0200)])"
  by (simp add: status_two_slot_changer mchanger_eject_def fetch_two_slot_changer
      cmd_move_medium_result two_slot_changer_move move_to_ie_def eject_optical_media_def)

text \<open>
  The two runs are no accident of the device: \<^verbatim>\<open>mchanger_eject\<close> has no path that
  returns \<open>MCHANGER_ERR_EMPTY\<close>. The \<^verbatim>\<open>eject\<close> command of \<^verbatim>\<open>main\<close> does what the
  claim says: with the slot empty and the medium not in the drive it fails with result
  code 1 after the status read, and moves nothing.
\<close>

lemma eject_command_empty:
  assumes fetch: "fetch_element_map dev tr empty_map = Some (0, m, tr1)"
    and range: "0 < slot_index" "slot_index \<le> length (slots m)"
      "0 < drive_index" "drive_index \<le> length (drives m)"
    and ports: "ie m \<noteq> []" "transport_arg \<noteq> None \<or> transports m \<noteq> []"
    and status: "read_element_status_info dev tr1 (drives m ! (drive_index - 1)) True zero_status
        (slots m ! (slot_index - 1)) True zero_status = Some (0, drive_st, slot_st, tr2)"
    and slot_empty: "\<not> full slot_st"
    and elsewhere: "\<not> full drive_st
        \<or> (valid_src drive_st \<and> src_addr drive_st \<noteq> slots m ! (slot_index - 1))"
  shows "eject_command dev tr slot_index drive_index transport_arg dry_run confirm answer
       = Some (1, tr2)
     \<and> moves_of (issued tr tr2) = []"
proof -
  from fetch obtain evs where evs: "tr1 = tr @ evs" "moves_of evs = []"
    by (blast dest: fetch_element_map_issued)
  from status have tr2: "tr2 = tr1 @ [Scsi (read_element_status_cdb 0x00 0 0xFFFF 4096)]"
    by (rule read_element_status_info_trace)
  have "eject_command dev tr slot_index drive_index transport_arg dry_run confirm answer
       = Some (1, tr2)"
    using fetch range ports status slot_empty elsewhere
    by (auto simp: eject_command_def Let_def)
  moreover have "moves_of (issued tr tr2) = []"
    using evs tr2 by simp
  ultimately show ?thesis by simp
qed

lemma move_to_ie_not_empty: "fst (move_to_ie dev tr t s i) \<noteq> MCHANGER_ERR_EMPTY"
  by (simp add: move_to_ie_def MCHANGER_ERR_EMPTY_def MCHANGER_OK_def MCHANGER_ERR_SCSI_def
      split: prod.splits)

lemma mchanger_eject_never_empty:
  "mchanger_eject changer tr slot drive \<noteq> Some (MCHANGER_ERR_EMPTY, tr')"
proof
  assume "mchanger_eject changer tr slot drive = Some (MCHANGER_ERR_EMPTY, tr')"
  then show False
    using move_to_ie_not_empty
    by (auto simp: mchanger_eject_def Let_def MCHANGER_ERR_EMPTY_def MCHANGER_ERR_INVALID_def
        MCHANGER_ERR_SCSI_def split: option.splits if_splits prod.splits)
      (metis fst_conv MCHANGER_ERR_EMPTY_def)+
qed

section \<open>The two decoders of the descriptor flags\<close>

text \<open>
  Claim C8. The decoders of \<^verbatim>\<open>mchanger.c\<close> and \<^verbatim>\<open>xl1b_changer.c\<close> disagree on
  "full" for the flag bytes 0x20 and 0x01: the first reads bit 0x01, the second bit
  0x20. Both read "except" from bit 0x80.
\<close>

theorem full_bit_decoders_differ:
  "snd (print_flags 0x20) \<noteq> snd (xl1b_print_flags 0x20)
   \<and> snd (print_flags 0x01) \<noteq> snd (xl1b_print_flags 0x01)
   \<and> (\<forall>flags. snd (print_flags flags) = (flags AND 0x01 \<noteq> 0))
   \<and> (\<forall>flags. snd (xl1b_print_flags flags) = (flags AND 0x20 \<noteq> 0))
   \<and> (\<forall>flags. fst (print_flags flags) = (flags AND 0x80 \<noteq> 0))
   \<and> (\<forall>flags. fst (xl1b_print_flags flags) = (flags AND 0x80 \<noteq> 0))"
  by (simp add: print_flags_def xl1b_print_flags_def)


section \<open>The exception flag of the status functions\<close>

lemma status_slot_only:
  "read_element_status_info (two_slot_changer f1 f2 df sv src ok) tr
       0x0100 False zero_status 0x1000 True zero_status
     = Some (0, zero_status,
          \<lparr>addr = 0x1000, full = (f1 AND 1 \<noteq> 0), valid_src = False, src_addr = 0\<rparr>,
          tr @ [status_query])"
  by (simp add: two_slot_changer_def status_query_def
      read_element_status_info_def execute_cdb_def toy_changer_def Let_def
      info_pages.simps info_descriptors.simps update_status_def fixture_defs be24_def)

lemma status_drive_only:
  "read_element_status_info (two_slot_changer f1 f2 df sv src ok) tr
       0x0100 True zero_status 0 False zero_status
     = Some (0, \<lparr>addr = 0x0100, full = (df AND 1 \<noteq> 0), valid_src = (sv AND 0x80 \<noteq> 0), src_addr = src\<rparr>,
          zero_status, tr @ [status_query])"
  by (simp add: two_slot_changer_def status_query_def
      read_element_status_info_def execute_cdb_def toy_changer_def Let_def
      info_pages.simps info_descriptors.simps update_status_def fixture_defs be24_def)

text \<open>
  Claim C10. Whenever \<^verbatim>\<open>mchanger_get_slot_status\<close> or
  \<^verbatim>\<open>mchanger_get_drive_status\<close> returns \<open>MCHANGER_OK\<close>, the status it returns has
  \<open>except\<close> false.
\<close>

theorem status_except_is_false:
  assumes "mchanger_get_slot_status changer tr n out_status = Some (MCHANGER_OK, st, tr')
     \<or> mchanger_get_drive_status changer tr n out_status = Some (MCHANGER_OK, st, tr')"
  shows "\<not> except st"
  using assms
  by (auto simp: mchanger_get_slot_status_def mchanger_get_drive_status_def Let_def
      MCHANGER_OK_def MCHANGER_ERR_INVALID_def MCHANGER_ERR_SCSI_def
      split: option.splits if_splits)

text \<open>
  On the simulated changer both descriptors carry the flag byte 0x81, exception bit
  set, and the structure passed in has \<open>except\<close> true.
\<close>

theorem status_except_is_false_witness:
  "mchanger_get_slot_status (Some (two_slot_changer 0x81 0x00 0x81 0x00 0 True)) [] 1
       \<lparr>address = 0, full_media = False, except = True, valid_source = False, source_addr = 0\<rparr>
     = Some (MCHANGER_OK,
         \<lparr>address = 0x1000, full_media = True, except = False, valid_source = False, source_addr = 0\<rparr>,
         discovery_trace @ [status_query])
   \<and> mchanger_get_drive_status (Some (two_slot_changer 0x81 0x00 0x81 0x00 0 True)) [] 1
       \<lparr>address = 0, full_media = False, except = True, valid_source = False, source_addr = 0\<rparr>
     = Some (MCHANGER_OK,
         \<lparr>address = 0x0100, full_media = True, except = False, valid_source = False, source_addr = 0\<rparr>,
         discovery_trace @ [status_query])
   \<and> fst (print_flags 0x81)"
proof -
  let ?dev = "two_slot_changer 0x81 0x00 0x81 0x00 0 True"
  let ?out = "\<lparr>address = 0, full_media = False, except = True, valid_source = False,
    source_addr = 0\<rparr>"
  obtain st1 where s1: "mchanger_get_slot_status (Some ?dev) [] 1 ?out
      = Some (MCHANGER_OK, st1, discovery_trace @ [status_query])"
    and v1: "address st1 = 0x1000" "full_media st1" "\<not> valid_source st1" "source_addr st1 = 0"
    by (simp add: mchanger_get_slot_status_def fetch_two_slot_changer status_slot_only)
  obtain st2 where s2: "mchanger_get_drive_status (Some ?dev) [] 1 ?out
      = Some (MCHANGER_OK, st2, discovery_trace @ [status_query])"
    and v2: "address st2 = 0x0100" "full_media st2" "\<not> valid_source st2" "source_addr st2 = 0"
    by (simp add: mchanger_get_drive_status_def fetch_two_slot_changer status_drive_only)
  from s1 have "\<not> except st1"
    by (intro status_except_is_false [where n = 1]) (rule disjI1)
  with v1 have e1: "st1 = \<lparr>address = 0x1000, full_media = True, except = False,
      valid_source = False, source_addr = 0\<rparr>"
    by simp
  from s2 have "\<not> except st2"
    by (intro status_except_is_false [where n = 1]) (rule disjI2)
  with v2 have e2: "st2 = \<lparr>address = 0x0100, full_media = True, except = False,
      valid_source = False, source_addr = 0\<rparr>"
    by simp
  from s1 s2 show ?thesis
    unfolding e1 e2 by (simp add: print_flags_def)
qed


section \<open>Filling in the slots the device did not report\<close>

lemma fill_loop_eq:
  "a \<le> e \<Longrightarrow> fill_loop a e xs = xs @ map of_nat [unat a..<unat e]"
proof (induction a e xs rule: fill_loop.induct)
  case (1 a e xs)
  show ?case
  proof (cases "a < e")
    case False
    with "1.prems" have "a = e" by simp
    then show ?thesis
      by (subst fill_loop.simps) simp
  next
    case True
    then have suc: "unat (a + 1) = Suc (unat a)"
      by (rule unat_succ_below)
    from True have lt: "unat a < unat e"
      by (simp add: word_less_nat_alt)
    with suc have "a + 1 \<le> e"
      by (simp add: word_le_nat_alt)
    with True have "fill_loop (a + 1) e (element_list_push xs a)
        = element_list_push xs a @ map of_nat [unat (a + 1)..<unat e]"
      by (rule "1.IH")
    moreover have "[unat a..<unat e] = unat a # [Suc (unat a)..<unat e]"
      using lt by (simp add: upt_rec)
    ultimately show ?thesis
      using True suc by (subst fill_loop.simps) (simp add: element_list_push_def)
  qed
qed

lemma unat_of_nat_u16: "n < 65536 \<Longrightarrow> unat (of_nat n :: u16) = n"
  by (rule of_nat_inverse [OF refl]) simp

lemma distinct_of_nat_upt:
  assumes "j \<le> 65536"
  shows "distinct (map of_nat [i..<j] :: u16 list)"
proof -
  have "inj_on (of_nat :: nat \<Rightarrow> u16) {i..<j}"
  proof (rule inj_onI)
    fix x y
    assume xy: "x \<in> {i..<j}" "y \<in> {i..<j}" and eq: "(of_nat x :: u16) = of_nat y"
    from xy assms have "x < 65536" "y < 65536"
      by simp_all
    then have "unat (of_nat x :: u16) = x" "unat (of_nat y :: u16) = y"
      by (simp_all only: unat_of_nat_u16)
    with eq show "x = y" by metis
  qed
  then show ?thesis
    by (simp add: distinct_map)
qed

text \<open>
  The element address assignment that \<open>mode_sense_data first_st num_st\<close> decodes to.
\<close>

definition example_assignment :: "u16 \<Rightarrow> u16 \<Rightarrow> ElementAddrAssignment" where
  "example_assignment first_st num_st =
     \<lparr>first_transport = 0x0001, num_transport = 1, first_storage = first_st, num_storage = num_st,
      first_ie = 0x0200, num_ie = 1, first_drive = 0x0100, num_drive = 1\<rparr>"

lemma example_assignment_simps [simp]:
  "first_storage (example_assignment f n) = f" "num_storage (example_assignment f n) = n"
  by (simp_all add: example_assignment_def)

lemma mode_sense_toy:
  "read_mode_sense_element (toy_changer status (True, mode_sense_data f n) st ok) tr zero_assignment
     = Some (0, example_assignment f n, tr @ [Scsi mode_sense_element_cdb])"
  by (simp add: read_mode_sense_element_def execute_cdb_def toy_changer_def Let_def
      mode_sense_data_def example_assignment_def)

text \<open>
  Three changers for the fill-in. The first declares 3 slots from 0x1000 and answers
  the storage-only query from 0x1000 with the slot 0x1001 alone, and no other. The
  second declares 3 slots from 0x0000 and answers the storage-only query from 0x0000
  with the descriptors of all three, that of the empty slot 0x0000 being twelve zero
  bytes; it refuses a storage-only query from any other address. The third declares
  2 slots from 0xFFFE and refuses the storage-only query.
\<close>

definition one_slot_report :: "u16 \<Rightarrow> u8 list" where
  "one_slot_report a = status_report 20 (status_page 2 (descriptor a 0x01 0 0))"

definition under_reporting_changer :: device where
  "under_reporting_changer =
     toy_changer (changer_status 0x1000 0x01 0x1001 0x01 0x00 0x00 0)
       (True, mode_sense_data 0x1000 3)
       (\<lambda>start. if start = 0x1000 then (True, one_slot_report 0x1001) else (False, []))
       True"

definition wrapping_changer :: device where
  "wrapping_changer =
     toy_changer (changer_status 0x1000 0x01 0x1001 0x01 0x00 0x00 0)
       (True, mode_sense_data 0xFFFE 2) (\<lambda>start. (False, [])) True"

definition three_slots :: "u8 list" where
  "three_slots =
     descriptor 0x0000 0x00 0 0 @ descriptor 0x0001 0x01 0 0 @ descriptor 0x0002 0x01 0 0"

definition zero_based_status :: "u8 list" where
  "zero_based_status =
     status_report 64 (status_page 2 three_slots @ status_page 4 (descriptor 0x0100 0x00 0 0))"

definition zero_based_changer :: device where
  "zero_based_changer =
     toy_changer zero_based_status (True, mode_sense_data 0 3)
       (\<lambda>start. if start = 0 then (True, status_report 44 (status_page 2 three_slots))
                else (False, []))
       True"

lemma hi_lo_more [simp]:
  "hi_byte 3 = 0" "lo_byte 3 = 3" "hi_byte 2 = 0" "lo_byte 2 = 2"
  by (simp_all add: hi_byte_def lo_byte_def)

lemma fetch_with_mode_sense:
  "fetch_element_map (toy_changer (changer_status 0x1000 f1 0x1001 f2 df sv src) (True, mode_sense_data f n) st ok)
       tr empty_map
     = (let tr2 = tr @ [Scsi (read_element_status_cdb 0x00 0x0000 0xFFFF 65535),
                        Scsi mode_sense_element_cdb]
        in if n > 0 then
             let (tr3, m3) = paginate (toy_changer (changer_status 0x1000 f1 0x1001 f2 df sv src)
                                (True, mode_sense_data f n) st ok) tr2 f n (two_slot_map\<lparr>slots := []\<rparr>);
                 m4 = m3\<lparr>slots := fill_missing_slots (example_assignment f n) (slots m3)\<rparr>
             in Some (if total_count m4 > 0 then 0 else 1, m4, tr3)
           else Some (0, two_slot_map, tr2))"
proof -
  have hdr: "be24 (byte_at (changer_status 0x1000 f1 0x1001 f2 df sv src) 5)
      (byte_at (changer_status 0x1000 f1 0x1001 f2 df sv src) 6)
      (byte_at (changer_status 0x1000 f1 0x1001 f2 df sv src) 7) = 92"
    by (simp add: fixture_defs be24_def)
  have len: "length (changer_status 0x1000 f1 0x1001 f2 df sv src) = 100"
    by (simp add: fixture_defs)
  have ex: "execute_cdb (toy_changer (changer_status 0x1000 f1 0x1001 f2 df sv src)
        (True, mode_sense_data f n) st ok) tr (read_element_status_cdb 0x00 0x0000 0xFFFF 65535) 65535
      = ((0, changer_status 0x1000 f1 0x1001 f2 df sv src),
         tr @ [Scsi (read_element_status_cdb 0x00 0x0000 0xFFFF 65535)])"
    by (simp add: execute_cdb_def toy_changer_def len)
  show ?thesis
    by (simp add: fetch_element_map_def ex Let_def hdr parse_two_slots mode_sense_toy
        two_slot_map_def total_count_def split: prod.splits)
qed

lemma hi_lo_top [simp]:
  "hi_byte 0xFFFE = 0xFF" "lo_byte 0xFFFE = 0xFE"
  by (simp_all add: hi_byte_def lo_byte_def)

lemma paginate_no_storage:
  assumes "0 < n"
  shows "paginate (toy_changer status md (\<lambda>start. (False, [])) ok) tr f n m
     = (tr @ [Scsi (read_element_status_cdb 0x02 f n 65535)], m)"
  using assms
  by (subst paginate.simps) (simp add: execute_cdb_def toy_changer_def Let_def)

lemma fetch_under_reporting:
  "fetch_element_map under_reporting_changer [] empty_map
     = Some (0, \<lparr>transports = [0x0001], slots = [0x1001, 0x1001, 0x1002], drives = [0x0100],
                ie = [0x0200]\<rparr>,
          [Scsi (read_element_status_cdb 0x00 0x0000 0xFFFF 65535), Scsi mode_sense_element_cdb,
           Scsi (read_element_status_cdb 0x02 0x1000 3 65535),
           Scsi (read_element_status_cdb 0x02 0x1001 2 65535)])"
proof -
  have p1: "paginate under_reporting_changer tr 0x1000 3 (two_slot_map\<lparr>slots := []\<rparr>)
      = (tr @ [Scsi (read_element_status_cdb 0x02 0x1000 3 65535),
               Scsi (read_element_status_cdb 0x02 0x1001 2 65535)],
         two_slot_map\<lparr>slots := [0x1001]\<rparr>)" for tr
    by (simp add: paginate.simps [of _ _ _ "numeral k" for k] under_reporting_changer_def
        execute_cdb_def toy_changer_def
        one_slot_report_def fixture_defs parse_defs Let_def two_slot_map_def)
  have f1: "fill_missing_slots (example_assignment 0x1000 3) [0x1001] = [0x1001, 0x1001, 0x1002]"
    by (simp add: fill_missing_slots_def fill_loop.simps element_list_push_def)
  note q1 = p1 [of "[Scsi (read_element_status_cdb 0x00 0x0000 0xFFFF 65535),
        Scsi mode_sense_element_cdb]", unfolded under_reporting_changer_def]
  show ?thesis
    unfolding under_reporting_changer_def
    using q1
    by (simp add: fetch_with_mode_sense f1 two_slot_map_def total_count_def)
qed

lemma fetch_zero_based:
  "fetch_element_map zero_based_changer [] empty_map
     = Some (0, \<lparr>transports = [], slots = [0x0001, 0x0002, 0x0002], drives = [0x0100], ie = []\<rparr>,
          [Scsi (read_element_status_cdb 0x00 0x0000 0xFFFF 65535), Scsi mode_sense_element_cdb,
           Scsi (read_element_status_cdb 0x02 0x0000 3 65535),
           Scsi (read_element_status_cdb 0x02 0x0002 1 65535)])"
proof -
  have len: "length zero_based_status = 72"
    by (simp add: zero_based_status_def three_slots_def fixture_defs)
  have hdr: "be24 (byte_at zero_based_status 5) (byte_at zero_based_status 6)
      (byte_at zero_based_status 7) = 64"
    by (simp add: zero_based_status_def three_slots_def fixture_defs be24_def)
  have parse: "parse_element_status_map zero_based_status 72 empty_map
      = (True, \<lparr>transports = [], slots = [0x0001, 0x0002], drives = [0x0100], ie = []\<rparr>)"
    by (simp add: zero_based_status_def three_slots_def fixture_defs parse_element_status_map_def
        parse_pages.simps parse_descriptors.simps be24_def push_by_type_def element_list_push_def
        total_count_def empty_map_def Let_def)
  have pag: "paginate zero_based_changer tr 0 3
        \<lparr>transports = [], slots = [], drives = [0x0100], ie = []\<rparr>
      = (tr @ [Scsi (read_element_status_cdb 0x02 0 3 65535),
               Scsi (read_element_status_cdb 0x02 2 1 65535)],
         \<lparr>transports = [], slots = [0x0001, 0x0002], drives = [0x0100], ie = []\<rparr>)" for tr
    by (simp add: paginate.simps [of _ _ _ "numeral k" for k] paginate.simps [of _ _ _ 1]
        zero_based_changer_def execute_cdb_def toy_changer_def three_slots_def
        fixture_defs parse_element_status_map_def
        parse_pages.simps parse_descriptors.simps be24_def push_by_type_def element_list_push_def
        total_count_def Let_def)
  have fill: "fill_missing_slots (example_assignment 0 3) [0x0001, 0x0002] = [0x0001, 0x0002, 0x0002]"
    by (simp add: fill_missing_slots_def fill_loop.simps element_list_push_def)
  have ex: "execute_cdb zero_based_changer [] (read_element_status_cdb 0x00 0x0000 0xFFFF 65535) 65535
      = ((0, zero_based_status), [Scsi (read_element_status_cdb 0x00 0x0000 0xFFFF 65535)])"
    by (simp add: execute_cdb_def zero_based_changer_def toy_changer_def len)
  have ms: "read_mode_sense_element zero_based_changer tr zero_assignment
     = Some (0, example_assignment 0 3, tr @ [Scsi mode_sense_element_cdb])" for tr
    unfolding zero_based_changer_def by (rule mode_sense_toy)
  show ?thesis
    by (simp add: fetch_element_map_def ex Let_def hdr parse ms pag fill total_count_def)
qed

lemma fetch_wrapping:
  "fetch_element_map wrapping_changer [] empty_map
     = Some (0, \<lparr>transports = [0x0001], slots = [], drives = [0x0100], ie = [0x0200]\<rparr>,
          [Scsi (read_element_status_cdb 0x00 0x0000 0xFFFF 65535), Scsi mode_sense_element_cdb,
           Scsi (read_element_status_cdb 0x02 0xFFFE 2 65535)])"
proof -
  have fill: "fill_missing_slots (example_assignment 0xFFFE 2) [] = []"
    by (simp add: fill_missing_slots_def fill_loop.simps)
  show ?thesis
    by (simp add: wrapping_changer_def fetch_with_mode_sense paginate_no_storage fill
        two_slot_map_def total_count_def)
qed

text \<open>
  Claim C1 does not hold of \<^verbatim>\<open>fetch_element_map\<close>. The block that fills in the
  missing slots starts at the declared first address plus the number of slots found,
  not behind the last address found, and it computes the end of the declared range in
  16 bits. Three runs, each with a storage list shorter than the declared count after
  the pagination:

  \<^item> 3 slots declared from 0x1000, of which the changer reports the slot 0x1001 alone.
    The block appends 0x1001 and 0x1002: the list holds 0x1001 twice and 0x1000 not
    at all.
  \<^item> 3 slots declared from 0x0000, and the changer reports all three, the empty slot
    0x0000 in a descriptor of zero bytes, which the parser skips as padding. The list
    after the pagination is 0x0001, 0x0002, and the block appends 0x0002 again.
  \<^item> 2 slots declared from 0xFFFE, none reported. The end of the range, 0xFFFE + 2,
    is 0 in 16 bits: nothing is appended, and the list stays empty.
\<close>

theorem fill_in_repeats_and_omits:
  "fetch_element_map under_reporting_changer [] empty_map
     = Some (0, \<lparr>transports = [0x0001], slots = [0x1001, 0x1001, 0x1002], drives = [0x0100],
                ie = [0x0200]\<rparr>,
          [Scsi (read_element_status_cdb 0x00 0x0000 0xFFFF 65535), Scsi mode_sense_element_cdb,
           Scsi (read_element_status_cdb 0x02 0x1000 3 65535),
           Scsi (read_element_status_cdb 0x02 0x1001 2 65535)])
   \<and> fill_missing_slots (example_assignment 0x1000 3) [0x1001] = [0x1001, 0x1001, 0x1002]
   \<and> fetch_element_map zero_based_changer [] empty_map
     = Some (0, \<lparr>transports = [], slots = [0x0001, 0x0002, 0x0002], drives = [0x0100], ie = []\<rparr>,
          [Scsi (read_element_status_cdb 0x00 0x0000 0xFFFF 65535), Scsi mode_sense_element_cdb,
           Scsi (read_element_status_cdb 0x02 0x0000 3 65535),
           Scsi (read_element_status_cdb 0x02 0x0002 1 65535)])
   \<and> fill_missing_slots (example_assignment 0x0000 3) [0x0001, 0x0002] = [0x0001, 0x0002, 0x0002]
   \<and> fetch_element_map wrapping_changer [] empty_map
     = Some (0, \<lparr>transports = [0x0001], slots = [], drives = [0x0100], ie = [0x0200]\<rparr>,
          [Scsi (read_element_status_cdb 0x00 0x0000 0xFFFF 65535), Scsi mode_sense_element_cdb,
           Scsi (read_element_status_cdb 0x02 0xFFFE 2 65535)])
   \<and> fill_missing_slots (example_assignment 0xFFFE 2) [] = []"
  by (simp add: fetch_under_reporting fetch_zero_based fetch_wrapping
      fill_missing_slots_def fill_loop.simps element_list_push_def)

text \<open>
  The library interface hands the list on as it is. On the third changer, which
  declares two slots, \<^verbatim>\<open>mchanger_get_slot_status\<close> refuses slot 1 as out of range.
\<close>

lemma wrapping_changer_slot_refused:
  "mchanger_get_slot_status (Some wrapping_changer) [] 1 out_status
     = Some (MCHANGER_ERR_INVALID, out_status,
          [Scsi (read_element_status_cdb 0x00 0x0000 0xFFFF 65535), Scsi mode_sense_element_cdb,
           Scsi (read_element_status_cdb 0x02 0xFFFE 2 65535)])"
  by (simp add: mchanger_get_slot_status_def fetch_wrapping)

text \<open>
  What the block does achieve: when the list it is given has \<open>d\<close> entries, fewer than the
  declared count \<open>N\<close>, and the declared range does not wrap around (\<open>F + N\<close> is below
  \<open>2 ^ 16\<close>), it appends the \<open>N - d\<close> addresses \<open>F + d, ..., F + N - 1\<close>, in this
  order, and the list then has \<open>N\<close> entries. The whole list is \<open>F, ..., F + N - 1\<close>,
  without gap or duplicate, only when the entries found were \<open>F, ..., F + d - 1\<close>.
\<close>

lemma fill_missing_slots_run:
  assumes short: "length list < unat (num_storage assign)"
    and no_wrap: "unat (first_storage assign) + unat (num_storage assign) < 65536"
  shows "fill_missing_slots assign list
       = list @ map of_nat [unat (first_storage assign) + length list
                            ..<unat (first_storage assign) + unat (num_storage assign)]
     \<and> length (fill_missing_slots assign list) = unat (num_storage assign)
     \<and> distinct (map of_nat [unat (first_storage assign) + length list
                            ..<unat (first_storage assign) + unat (num_storage assign)] :: u16 list)
     \<and> (list = map of_nat [unat (first_storage assign)..<unat (first_storage assign) + length list]
        \<longrightarrow> fill_missing_slots assign list
              = map of_nat [unat (first_storage assign)
                            ..<unat (first_storage assign) + unat (num_storage assign)]
            \<and> distinct (fill_missing_slots assign list))"
proof -
  let ?F = "first_storage assign" and ?N = "num_storage assign"
  let ?d = "length list"
  have e: "unat (?F + ?N) = unat ?F + unat ?N"
    using no_wrap by (simp add: unat_add_lem [THEN iffD1])
  have d: "unat (of_nat ?d :: u16) = ?d"
    using short by (intro le_unat_uoi [where z = ?N]) simp
  have a: "unat (?F + of_nat ?d) = unat ?F + ?d"
    using no_wrap short d by (simp add: unat_add_lem [THEN iffD1])
  have le: "?F + of_nat ?d \<le> ?F + ?N"
    using short by (simp add: word_le_nat_alt a e)
  have main: "fill_missing_slots assign list = list @ map of_nat [unat ?F + ?d..<unat ?F + unat ?N]"
    using short by (simp add: fill_missing_slots_def Let_def fill_loop_eq [OF le] a e)
  have len: "length (fill_missing_slots assign list) = unat ?N"
    using short by (simp add: main)
  have dist: "distinct (map of_nat [unat ?F + ?d..<unat ?F + unat ?N] :: u16 list)"
    using no_wrap by (intro distinct_of_nat_upt) simp
  have prefix: "fill_missing_slots assign list = map of_nat [unat ?F..<unat ?F + unat ?N]
      \<and> distinct (fill_missing_slots assign list)"
    if "list = map of_nat [unat ?F..<unat ?F + ?d]"
  proof -
    have "unat ?F + unat ?N = (unat ?F + ?d) + (unat ?N - ?d)"
      using short by simp
    then have "[unat ?F..<unat ?F + unat ?N]
        = [unat ?F..<unat ?F + ?d] @ [unat ?F + ?d..<unat ?F + unat ?N]"
      by (metis le_add1 upt_add_eq_append)
    with that main have "fill_missing_slots assign list = map of_nat [unat ?F..<unat ?F + unat ?N]"
      by (metis map_append)
    moreover have "distinct (map of_nat [unat ?F..<unat ?F + unat ?N] :: u16 list)"
      using no_wrap by (intro distinct_of_nat_upt) simp
    ultimately show ?thesis by simp
  qed
  from main len dist prefix show ?thesis
    by blast
qed


text \<open>
  The example of the specification: 50 slots declared from 0x1000, 40 of them found
  (0x1000 to 0x1027); the block appends 0x1028 to 0x1031.
\<close>

lemma fill_missing_slots_run_example:
  "fill_missing_slots (example_assignment 0x1000 50) (map of_nat [4096..<4136])
     = map of_nat [4096..<4136]
       @ [0x1028, 0x1029, 0x102A, 0x102B, 0x102C, 0x102D, 0x102E, 0x102F, 0x1030, 0x1031]
   \<and> length (fill_missing_slots (example_assignment 0x1000 50) (map of_nat [4096..<4136])) = 50
   \<and> distinct (fill_missing_slots (example_assignment 0x1000 50) (map of_nat [4096..<4136]))"
proof -
  have up: "[4136..<4146] = [4136, 4137, 4138, 4139, 4140, 4141, 4142, 4143, 4144, 4145::nat]"
    by (simp add: upt_rec)
  show ?thesis
    using fill_missing_slots_run [of "map of_nat [4096..<4136]" "example_assignment 0x1000 50"]
    by (simp add: up)
qed


section \<open>Parsing reads the bytes below the length, and nothing else\<close>

lemma all_zero_cong:
  assumes "\<forall>i<page_end. byte_at b1 i = byte_at b2 i" and "offset + desc_len \<le> page_end"
  shows "all_zero b1 offset desc_len = all_zero b2 offset desc_len"
  using assms by (auto simp: all_zero_def list_all_iff)

lemma parse_descriptors_cong:
  assumes "\<forall>i<page_end. byte_at b1 i = byte_at b2 i"
  shows "parse_descriptors b1 type desc_len page_end offset m
       = parse_descriptors b2 type desc_len page_end offset m"
  using assms
proof (induction b1 type desc_len page_end offset m rule: parse_descriptors.induct)
  case (1 b1 type desc_len page_end offset m)
  show ?case
  proof (cases "offset + desc_len \<le> page_end \<and> \<not> desc_len < 2")
    case False
    then show ?thesis
      by (subst parse_descriptors.simps, subst (2) parse_descriptors.simps) auto
  next
    case True
    with "1.prems" have b: "byte_at b1 offset = byte_at b2 offset"
      "byte_at b1 (offset + 1) = byte_at b2 (offset + 1)"
      by simp_all
    from True "1.prems" have z: "all_zero b1 offset desc_len = all_zero b2 offset desc_len"
      by (intro all_zero_cong [where page_end = page_end]) simp_all
    show ?thesis
      using True "1.IH" "1.prems" b z
      by (subst parse_descriptors.simps, subst (2) parse_descriptors.simps)
        (simp add: Let_def)
  qed
qed


text \<open>
  One round of the loop over the type pages, for the proofs: \<open>None\<close> where the loop is
  left, otherwise the offset and the map the next round starts from.
\<close>

definition page_step :: "u8 list \<Rightarrow> nat \<Rightarrow> nat \<Rightarrow> ElementMap \<Rightarrow> (nat \<times> ElementMap) option" where
  "page_step buf len offset m =
     (if offset + 8 \<le> len then
        let type = byte_at buf offset AND 0x0F;
            desc_len = unat (be16 (byte_at buf (offset + 2)) (byte_at buf (offset + 3)));
            page_bytes = be24 (byte_at buf (offset + 5)) (byte_at buf (offset + 6))
                           (byte_at buf (offset + 7));
            offset1 = offset + 8
        in if desc_len = 0 \<or> page_bytes = 0 then None
           else
             let page_end = (if offset1 + page_bytes > len then len else offset1 + page_bytes);
                 (offset2, m2) = parse_descriptors buf type desc_len page_end offset1 m;
                 offset3 = (if offset2 < page_end then page_end else offset2)
             in Some (offset3, m2)
      else None)"

lemma parse_pages_rec:
  "parse_pages buf len offset m =
     (case page_step buf len offset m of
        None \<Rightarrow> m
      | Some (offset3, m2) \<Rightarrow> parse_pages buf len offset3 m2)"
  by (subst parse_pages.simps) (simp add: page_step_def Let_def split: prod.splits)

lemma page_step_advances:
  assumes "page_step buf len offset m = Some (offset3, m2)"
  shows "offset < offset3"
proof -
  have "offset + 8 \<le> fst (parse_descriptors buf type desc_len page_end (offset + 8) m)"
    for type desc_len page_end
    by (rule parse_descriptors_offset)
  with assms show ?thesis
    by (fastforce simp: page_step_def Let_def split: if_splits prod.splits)
qed

lemma page_step_within:
  assumes "page_step buf len offset m = Some (offset3, m2)"
  shows "offset + 8 \<le> len"
  using assms by (simp add: page_step_def split: if_splits)

lemma parse_pages_induct_steps [consumes 0, case_names step]:
  assumes step: "\<And>offset m.
     (\<And>offset3 m2. page_step buf len offset m = Some (offset3, m2) \<Longrightarrow> P offset3 m2)
     \<Longrightarrow> P offset m"
  shows "P offset m"
proof (induction "len + 8 - offset" arbitrary: offset m rule: less_induct)
  case less
  show ?case
    apply (rule step)
    apply (rule less.hyps)
    apply (frule page_step_advances)
    apply (drule page_step_within)
    apply simp
    done
qed

lemma page_step_cong:
  assumes "\<forall>i<len. byte_at b1 i = byte_at b2 i"
  shows "page_step b1 len offset m = page_step b2 len offset m"
proof (cases "offset + 8 \<le> len")
  case False
  then show ?thesis
    by (simp add: page_step_def)
next
  case True
  with assms have hdr: "byte_at b1 (offset + k) = byte_at b2 (offset + k)" if "k < 8" for k
    using that by simp
  from hdr [of 0] have h0: "byte_at b1 offset = byte_at b2 offset"
    by simp
  have "parse_descriptors b1 type desc_len page_end offset' m
      = parse_descriptors b2 type desc_len page_end offset' m"
    if "page_end \<le> len" for type desc_len page_end offset'
    using assms that by (intro parse_descriptors_cong) simp
  then show ?thesis
    unfolding page_step_def
    by (simp only: h0 hdr [of 2] hdr [of 3] hdr [of 5] hdr [of 6] hdr [of 7]) (simp add: Let_def)
qed

lemma parse_pages_cong:
  assumes "\<forall>i<len. byte_at b1 i = byte_at b2 i"
  shows "parse_pages b1 len offset m = parse_pages b2 len offset m"
proof (induction offset m rule: parse_pages_induct_steps [where buf = b1 and len = len])
  case (step offset m)
  have eq: "page_step b2 len offset m = page_step b1 len offset m"
    using assms by (rule page_step_cong [symmetric])
  show ?case
    by (simp only: parse_pages_rec [of b1 len offset m] parse_pages_rec [of b2 len offset m] eq)
      (auto simp: step split: option.splits)
qed

text \<open>
  Claim C9. Parsing is a function of the bytes parsed: two buffers that hold the same
  bytes below \<open>len\<close> parse into fresh empty maps with the same result, the four
  address lists in the same order and the same return value, whatever lies behind
  \<open>len\<close> in either buffer. The stop conditions and the skipping of all-zero storage
  descriptors are part of \<open>parse_element_status_map\<close>, so they apply alike to both.
\<close>

theorem parse_depends_on_bytes_only:
  assumes "\<forall>i<len. byte_at buf1 i = byte_at buf2 i"
  shows "parse_element_status_map buf1 len empty_map = parse_element_status_map buf2 len empty_map"
  using assms by (simp add: parse_element_status_map_def parse_pages_cong [of len buf1 buf2])


text \<open>
  Two buffers with the same first 52 bytes: a storage page of three descriptors, the
  second of them all zero at address 0x0000. Behind byte 52 one buffer holds a drive
  page, the other two bytes 0xFF. Both parse to the slots 0x1000 and 0x1001: the zero
  descriptor is skipped, and parsing stops at the length.
\<close>

definition padded_report :: "u8 list" where
  "padded_report =
     status_report 44
       (status_page 2
          (descriptor 0x1000 0x01 0 0 @ descriptor 0x0000 0x00 0 0 @ descriptor 0x1001 0x00 0 0))"

lemma byte_at_append: "i < length xs \<Longrightarrow> byte_at (xs @ ys) i = byte_at xs i"
  by (simp add: byte_at_def nth_append)

theorem parse_depends_on_bytes_only_witness:
  "parse_element_status_map (padded_report @ status_page 4 (descriptor 0x0100 0x01 0 0)) 52 empty_map
     = (True, \<lparr>transports = [], slots = [0x1000, 0x1001], drives = [], ie = []\<rparr>)
   \<and> parse_element_status_map (padded_report @ [0xFF, 0xFF]) 52 empty_map
     = (True, \<lparr>transports = [], slots = [0x1000, 0x1001], drives = [], ie = []\<rparr>)"
proof -
  have len: "length padded_report = 52"
    by (simp add: padded_report_def fixture_defs)
  have agree: "\<forall>i<52. byte_at (padded_report @ status_page 4 (descriptor 0x0100 0x01 0 0)) i
      = byte_at (padded_report @ [0xFF, 0xFF]) i"
    by (simp add: byte_at_append len)
  have "parse_element_status_map (padded_report @ [0xFF, 0xFF]) 52 empty_map
     = (True, \<lparr>transports = [], slots = [0x1000, 0x1001], drives = [], ie = []\<rparr>)"
    by (simp add: padded_report_def fixture_defs parse_element_status_map_def parse_pages.simps
        parse_descriptors.simps be24_def push_by_type_def element_list_push_def total_count_def
        empty_map_def Let_def)
  with parse_depends_on_bytes_only [OF agree] show ?thesis
    by simp
qed


section \<open>When the storage list is rebuilt\<close>

text \<open>
  Parsing only appends to the four lists of the map it is given. \<open>map_append a m\<close> is
  the map \<open>m\<close> with the lists of \<open>a\<close> in front.
\<close>

definition map_append :: "ElementMap \<Rightarrow> ElementMap \<Rightarrow> ElementMap" where
  "map_append a m =
     \<lparr>transports = transports a @ transports m, slots = slots a @ slots m,
      drives = drives a @ drives m, ie = ie a @ ie m\<rparr>"

lemma map_append_empty [simp]: "map_append a empty_map = a"
  by (simp add: map_append_def empty_map_def)

lemma slots_map_append [simp]: "slots (map_append a m) = slots a @ slots m"
  by (simp add: map_append_def)

lemma push_by_type_append:
  "push_by_type type x (map_append a m) = map_append a (push_by_type type x m)"
  by (simp add: push_by_type_def map_append_def element_list_push_def)

lemma parse_descriptors_append:
  "parse_descriptors buf type desc_len page_end offset (map_append a m)
     = (fst (parse_descriptors buf type desc_len page_end offset m),
        map_append a (snd (parse_descriptors buf type desc_len page_end offset m)))"
proof (induction buf type desc_len page_end offset m rule: parse_descriptors.induct)
  case (1 buf type desc_len page_end offset m)
  show ?case
  proof (cases "offset + desc_len \<le> page_end \<and> \<not> desc_len < 2")
    case False
    then show ?thesis
      by (subst parse_descriptors.simps, subst (2 3) parse_descriptors.simps) auto
  next
    case True
    then show ?thesis
      using "1.IH"
      by (subst parse_descriptors.simps, subst (2 3) parse_descriptors.simps)
        (simp add: Let_def push_by_type_append)
  qed
qed

lemma page_step_append:
  "page_step buf len offset (map_append a m)
     = map_option (\<lambda>(offset3, m2). (offset3, map_append a m2)) (page_step buf len offset m)"
  by (simp add: page_step_def Let_def parse_descriptors_append split: prod.splits)

lemma parse_pages_append:
  "parse_pages buf len offset (map_append a m) = map_append a (parse_pages buf len offset m)"
proof (induction offset m rule: parse_pages_induct_steps [where buf = buf and len = len])
  case (step offset m)
  show ?case
    by (simp only: parse_pages_rec [of buf len offset "map_append a m"]
        parse_pages_rec [of buf len offset m] page_step_append)
      (auto simp: step split: option.splits)
qed

lemma parse_element_status_map_append:
  "snd (parse_element_status_map buf len (map_append a m))
     = map_append a (snd (parse_element_status_map buf len m))"
  by (simp add: parse_element_status_map_def parse_pages_append Let_def)

lemma page_round_append:
  "page_round dev tr s r (map_append a m)
     = (case page_round dev tr s r m of (tr1, m1, added) \<Rightarrow> (tr1, map_append a m1, added))"
  by (simp add: page_round_def Let_def parse_element_status_map_append split: prod.splits)

lemma paginate_append:
  "paginate dev tr s r (map_append a m)
     = (fst (paginate dev tr s r m), map_append a (snd (paginate dev tr s r m)))"
proof (induction tr s r m rule: paginate_induct_rounds [where dev = dev])
  case (round tr s r m)
  obtain tr1 m1 added where pr: "page_round dev tr s r m = (tr1, m1, added)"
    by (metis prod_cases3)
  show ?case
  proof (cases "r > 0 \<and> added \<noteq> 0 \<and> added < unat r")
    case True
    with pr have "paginate dev tr1 (s + of_nat added) (r - of_nat added) (map_append a m1)
        = (fst (paginate dev tr1 (s + of_nat added) (r - of_nat added) m1),
           map_append a (snd (paginate dev tr1 (s + of_nat added) (r - of_nat added) m1)))"
      by (intro round.IH) simp_all
    with True pr show ?thesis
      by (simp only: paginate_rec [of dev tr s r "map_append a m"] paginate_rec [of dev tr s r m]
          page_round_append) simp
  next
    case False
    with pr show ?thesis
      by (simp only: paginate_rec [of dev tr s r "map_append a m"] paginate_rec [of dev tr s r m]
          page_round_append) auto
  qed
qed

lemma paginate_discards_slots:
  "slots (snd (paginate dev tr s r (m\<lparr>slots := []\<rparr>))) = slots (snd (paginate dev tr s r empty_map))"
proof -
  have "m\<lparr>slots := []\<rparr> = map_append (m\<lparr>slots := []\<rparr>) empty_map"
    by simp
  then have "paginate dev tr s r (m\<lparr>slots := []\<rparr>)
      = (fst (paginate dev tr s r empty_map),
         map_append (m\<lparr>slots := []\<rparr>) (snd (paginate dev tr s r empty_map)))"
    by (metis paginate_append)
  then show ?thesis by simp
qed

lemma paginate_first_query:
  assumes "r > 0"
  shows "\<exists>evs. fst (paginate dev tr s r m)
      = tr @ Scsi (read_element_status_cdb 0x02 s r 65535) # evs"
proof -
  obtain tr1 m1 added where pr: "page_round dev tr s r m = (tr1, m1, added)"
    by (metis prod_cases3)
  then have tr1: "tr1 = tr @ [Scsi (read_element_status_cdb 0x02 s r 65535)]"
    by (rule page_round_trace)
  show ?thesis
  proof (cases "added = 0 \<or> added \<ge> unat r")
    case True
    with assms pr tr1 show ?thesis
      by (subst paginate_rec) auto
  next
    case False
    obtain tr' m' where p: "paginate dev tr1 (s + of_nat added) (r - of_nat added) m1 = (tr', m')"
      by (metis surj_pair)
    then obtain evs where "tr' = tr1 @ evs"
      by (blast dest: paginate_trace)
    with False assms pr tr1 p show ?thesis
      by (subst paginate_rec) auto
  qed
qed

text \<open>
  Claim C6, as amended. After an all-types query that succeeds and declares a byte
  count other than 0, \<^verbatim>\<open>fetch_element_map\<close> discards the storage list of that query
  and rebuilds it by storage-only queries exactly when MODE SENSE succeeds and declares
  a storage count above 0. The number of storage elements the all-types query returned
  plays no part. In that case the final storage list is what pagination from an empty
  map and the fill-in give, and the first command after MODE SENSE is the storage-only
  READ ELEMENT STATUS for the declared range. Otherwise the storage list of the
  all-types query is kept and no further command is issued.
\<close>

theorem storage_list_rebuilt_iff:
  assumes first: "execute_cdb dev tr (read_element_status_cdb 0x00 0x0000 0xFFFF 65535) 65535
        = ((0, buf), tr1)"
    and bytes: "be24 (byte_at buf 5) (byte_at buf 6) (byte_at buf 7) = report_bytes"
      "report_bytes \<noteq> 0"
    and all_types: "m1 = snd (parse_element_status_map buf
        (if report_bytes + 8 \<le> 65535 then report_bytes + 8 else 65535) m)"
    and mode: "read_mode_sense_element dev tr1 zero_assignment = Some (rc_ms, assign, tr2)"
  shows "\<exists>rc m' tr'. fetch_element_map dev tr m = Some (rc, m', tr')
     \<and> (if rc_ms = 0 \<and> num_storage assign > 0
        then slots m' = fill_missing_slots assign
               (slots (snd (paginate dev tr2 (first_storage assign) (num_storage assign) empty_map)))
             \<and> (\<exists>evs. tr' = tr2 @ Scsi (read_element_status_cdb 0x02 (first_storage assign)
                                        (num_storage assign) 65535) # evs)
        else slots m' = slots m1 \<and> tr' = tr2)"
proof -
  have unfold: "fetch_element_map dev tr m =
      (if rc_ms = 0 \<and> num_storage assign > 0 then
         let (tr3, m3) = paginate dev tr2 (first_storage assign) (num_storage assign)
                           (m1\<lparr>slots := []\<rparr>);
             m4 = m3\<lparr>slots := fill_missing_slots assign (slots m3)\<rparr>
         in Some (if total_count m4 > 0 then 0 else 1, m4, tr3)
       else Some (if total_count m1 > 0 then 0 else 1, m1, tr2))"
    using bytes(2) unfolding all_types bytes(1) [symmetric]
    by (simp add: fetch_element_map_def Let_def first mode split del: if_split cong: if_cong)
  show ?thesis
  proof (cases "rc_ms = 0 \<and> num_storage assign > 0")
    case False
    then show ?thesis
      by (auto simp: unfold)
  next
    case True
    obtain tr3 m3 where p: "paginate dev tr2 (first_storage assign) (num_storage assign)
        (m1\<lparr>slots := []\<rparr>) = (tr3, m3)"
      by (metis surj_pair)
    have "slots m3 = slots (snd (paginate dev tr2 (first_storage assign) (num_storage assign)
        empty_map))"
      using paginate_discards_slots [of dev tr2 "first_storage assign" "num_storage assign" m1] p
      by simp
    moreover have "\<exists>evs. tr3 = tr2 @ Scsi (read_element_status_cdb 0x02 (first_storage assign)
        (num_storage assign) 65535) # evs"
      using paginate_first_query [of "num_storage assign" dev tr2 "first_storage assign"
          "m1\<lparr>slots := []\<rparr>"] True p
      by simp
    ultimately show ?thesis
      using True p by (auto simp: unfold Let_def)
  qed
qed


text \<open>
  A changer that reports the slots 0x1000 and 0x1001 to the all-types query, declares
  \<open>n\<close> slots from 0x1000 by MODE SENSE and refuses the storage-only query.
\<close>

definition declaring_changer :: "u16 \<Rightarrow> device" where
  "declaring_changer n =
     toy_changer (changer_status 0x1000 0x01 0x1001 0x01 0x00 0x00 0)
       (True, mode_sense_data 0x1000 n) (\<lambda>start. (False, [])) True"

lemma fetch_declaring_changer:
  assumes "0 < n"
  shows "fetch_element_map (declaring_changer n) [] empty_map
     = Some (if total_count (two_slot_map\<lparr>slots := fill_missing_slots (example_assignment 0x1000 n) []\<rparr>) > 0
             then 0 else 1,
          two_slot_map\<lparr>slots := fill_missing_slots (example_assignment 0x1000 n) []\<rparr>,
          discovery_trace @ [Scsi (read_element_status_cdb 0x02 0x1000 n 65535)])"
  using assms
  by (simp add: declaring_changer_def fetch_with_mode_sense paginate_no_storage Let_def
      discovery_trace_def)

lemma fill_two [simp]:
  "fill_missing_slots (example_assignment 0x1000 2) [] = [0x1000, 0x1001]"
  "fill_missing_slots (example_assignment 0x1000 1) [] = [0x1000]"
  by (simp_all add: fill_missing_slots_def fill_loop.simps element_list_push_def)

text \<open>
  Both branches: the changer that declares 2 slots, and the simulated changer whose
  MODE SENSE fails.
\<close>

theorem storage_list_rebuilt_iff_witness:
  "(\<exists>rc m' tr'. fetch_element_map (declaring_changer 2) [] empty_map = Some (rc, m', tr')
      \<and> slots m' = [0x1000, 0x1001]
      \<and> (\<exists>evs. tr' = discovery_trace @ Scsi (read_element_status_cdb 0x02 0x1000 2 65535) # evs))
   \<and> (\<exists>rc m' tr'. fetch_element_map (two_slot_changer 0x01 0x01 0x00 0x00 0 True) [] empty_map
        = Some (rc, m', tr')
      \<and> slots m' = [0x1000, 0x1001] \<and> tr' = discovery_trace)"
proof -
  let ?img = "changer_status 0x1000 0x01 0x1001 0x01 0x00 0x00 0"
  have len: "length ?img = 100"
    by (simp add: fixture_defs)
  have hdr: "be24 (byte_at ?img 5) (byte_at ?img 6) (byte_at ?img 7) = 92"
    by (simp add: fixture_defs be24_def)
  have m1: "two_slot_map = snd (parse_element_status_map ?img
      (if (92::nat) + 8 \<le> 65535 then 92 + 8 else 65535) empty_map)"
    by (simp add: parse_two_slots)
  have first1: "execute_cdb (declaring_changer 2) []
      (read_element_status_cdb 0x00 0x0000 0xFFFF 65535) 65535
      = ((0, ?img), [Scsi (read_element_status_cdb 0x00 0x0000 0xFFFF 65535)])"
    by (simp add: declaring_changer_def execute_cdb_def toy_changer_def len)
  have mode1: "read_mode_sense_element (declaring_changer 2)
      [Scsi (read_element_status_cdb 0x00 0x0000 0xFFFF 65535)] zero_assignment
      = Some (0, example_assignment 0x1000 2, discovery_trace)"
    by (simp add: declaring_changer_def mode_sense_toy discovery_trace_def)
  have pag: "snd (paginate (declaring_changer 2) discovery_trace 0x1000 2 empty_map) = empty_map"
    by (simp add: declaring_changer_def paginate_no_storage)
  have first2: "execute_cdb (two_slot_changer 0x01 0x01 0x00 0x00 0 True) []
      (read_element_status_cdb 0x00 0x0000 0xFFFF 65535) 65535
      = ((0, ?img), [Scsi (read_element_status_cdb 0x00 0x0000 0xFFFF 65535)])"
    by (simp add: two_slot_changer_def execute_cdb_def toy_changer_def len)
  have mode2: "read_mode_sense_element (two_slot_changer 0x01 0x01 0x00 0x00 0 True)
      [Scsi (read_element_status_cdb 0x00 0x0000 0xFFFF 65535)] zero_assignment
      = Some (1, zero_assignment, discovery_trace)"
    by (simp add: two_slot_changer_def read_mode_sense_element_def execute_cdb_def
        toy_changer_def Let_def discovery_trace_def)
  have se: "slots empty_map = []"
    by (simp add: empty_map_def)
  show ?thesis
    using storage_list_rebuilt_iff [OF first1 hdr _ m1 mode1]
      storage_list_rebuilt_iff [OF first2 hdr _ m1 mode2]
    by (simp add: pag se)
qed

text \<open>
  The claim as stated fails. The all-types query returns two slots. With 2 slots
  declared, as many as returned, the storage-only query is issued all the same. With 1
  slot declared, fewer than returned, the list of two slots is replaced by the one
  synthesized address.
\<close>

theorem storage_list_rebuilt_iff_counterexample:
  "snd (parse_element_status_map (changer_status 0x1000 0x01 0x1001 0x01 0x00 0x00 0) 100 empty_map)
     = \<lparr>transports = [0x0001], slots = [0x1000, 0x1001], drives = [0x0100], ie = [0x0200]\<rparr>
   \<and> fetch_element_map (declaring_changer 2) [] empty_map
     = Some (0, \<lparr>transports = [0x0001], slots = [0x1000, 0x1001], drives = [0x0100], ie = [0x0200]\<rparr>,
          [Scsi (read_element_status_cdb 0x00 0x0000 0xFFFF 65535), Scsi mode_sense_element_cdb,
           Scsi (read_element_status_cdb 0x02 0x1000 2 65535)])
   \<and> fetch_element_map (declaring_changer 1) [] empty_map
     = Some (0, \<lparr>transports = [0x0001], slots = [0x1000], drives = [0x0100], ie = [0x0200]\<rparr>,
          [Scsi (read_element_status_cdb 0x00 0x0000 0xFFFF 65535), Scsi mode_sense_element_cdb,
           Scsi (read_element_status_cdb 0x02 0x1000 1 65535)])"
  by (simp add: parse_two_slots fetch_declaring_changer two_slot_map_def total_count_def
      discovery_trace_def)


section \<open>The all-types query is issued once\<close>

text \<open>
  The all-types READ ELEMENT STATUS commands of a trace, and the allocation length a
  command descriptor block carries in its bytes 6 to 8.
\<close>

fun all_types_query :: "event \<Rightarrow> bool" where
  "all_types_query (Scsi cdb) = (opcode cdb = 0xB8 \<and> byte_at cdb 1 = 0x00)"
| "all_types_query HostEject = False"
| "all_types_query HostWaitMount = False"

definition allocation_length :: "u8 list \<Rightarrow> nat" where
  "allocation_length cdb = be24 (byte_at cdb 6) (byte_at cdb 7) (byte_at cdb 8)"

lemma discovery_not_all_types: "discovery e \<Longrightarrow> \<not> all_types_query e"
  by (auto simp: discovery_def storage_query_def mode_sense_element_cdb_def opcode_def)

lemma filter_all_types_discovery: "list_all discovery evs \<Longrightarrow> filter all_types_query evs = []"
  by (induction evs) (auto simp: discovery_not_all_types)

lemma transports_map_append [simp]: "transports (map_append a m) = transports a @ transports m"
  by (simp add: map_append_def)

lemma drives_map_append [simp]: "drives (map_append a m) = drives a @ drives m"
  by (simp add: map_append_def)

lemma ie_map_append [simp]: "ie (map_append a m) = ie a @ ie m"
  by (simp add: map_append_def)

lemma paginate_from_empty:
  "paginate dev tr s r m
     = (fst (paginate dev tr s r empty_map), map_append m (snd (paginate dev tr s r empty_map)))"
  using paginate_append [of dev tr s r m empty_map] by simp

text \<open>
  Claim C7, as amended. \<^verbatim>\<open>fetch_element_map\<close> of \<^verbatim>\<open>mchanger.c\<close> issues the
  all-types READ ELEMENT STATUS exactly once, with the allocation length 65535, and
  never issues it again. When the byte count declared in the header, plus 8, exceeds
  that allocation, the one response is parsed up to the allocation, 65535 bytes (and
  up to the declared count plus 8 when that is less), and the map returned is built
  from this parse \<open>m1\<close> on every path. Where the storage
  list is rebuilt, the transport, drive and import/export lists are those of \<open>m1\<close>
  followed by what the storage-only queries add, the storage list is the filled-in
  list of those queries, and the trace is theirs. Otherwise the map returned is \<open>m1\<close>
  and MODE SENSE is the only further command. The return code is 0 exactly when the
  map returned holds an element.
\<close>

theorem all_types_query_never_reissued:
  assumes fetch: "fetch_element_map dev tr m = Some (rc, m', tr')"
  shows "filter all_types_query (issued tr tr')
       = [Scsi (read_element_status_cdb 0x00 0x0000 0xFFFF 65535)]
     \<and> allocation_length (read_element_status_cdb 0x00 0x0000 0xFFFF 65535) = 65535
     \<and> (\<forall>buf tr1 report_bytes rc_ms assign tr2 m1 p.
          execute_cdb dev tr (read_element_status_cdb 0x00 0x0000 0xFFFF 65535) 65535
            = ((0, buf), tr1)
          \<and> report_bytes = be24 (byte_at buf 5) (byte_at buf 6) (byte_at buf 7)
          \<and> report_bytes \<noteq> 0
          \<and> read_mode_sense_element dev tr1 zero_assignment = Some (rc_ms, assign, tr2)
          \<and> m1 = snd (parse_element_status_map buf
                       (if report_bytes + 8 \<le> 65535 then report_bytes + 8 else 65535) m)
          \<and> p = paginate dev tr2 (first_storage assign) (num_storage assign) empty_map
          \<longrightarrow> (if rc_ms = 0 \<and> 0 < num_storage assign
               then transports m' = transports m1 @ transports (snd p)
                  \<and> drives m' = drives m1 @ drives (snd p)
                  \<and> ie m' = ie m1 @ ie (snd p)
                  \<and> slots m' = fill_missing_slots assign (slots (snd p))
                  \<and> tr' = fst p
               else m' = m1 \<and> tr' = tr2)
              \<and> rc = (if 0 < total_count m' then 0 else 1))"
proof (intro conjI allI impI)
  from fetch obtain evs where
    "tr' = tr @ Scsi (read_element_status_cdb 0x00 0x0000 0xFFFF 65535) # evs"
    and "list_all discovery evs"
    by (blast dest: fetch_element_map_trace)
  then show "filter all_types_query (issued tr tr')
       = [Scsi (read_element_status_cdb 0x00 0x0000 0xFFFF 65535)]"
    by (simp add: filter_all_types_discovery)
next
  show "allocation_length (read_element_status_cdb 0x00 0x0000 0xFFFF 65535) = 65535"
    by (simp add: allocation_length_def read_element_status_cdb_def be24_def)
next
  fix buf tr1 report_bytes rc_ms assign tr2 m1 p
  assume a: "execute_cdb dev tr (read_element_status_cdb 0x00 0x0000 0xFFFF 65535) 65535
            = ((0, buf), tr1)
          \<and> report_bytes = be24 (byte_at buf 5) (byte_at buf 6) (byte_at buf 7)
          \<and> report_bytes \<noteq> 0
          \<and> read_mode_sense_element dev tr1 zero_assignment = Some (rc_ms, assign, tr2)
          \<and> m1 = snd (parse_element_status_map buf
                       (if report_bytes + 8 \<le> 65535 then report_bytes + 8 else 65535) m)
          \<and> p = paginate dev tr2 (first_storage assign) (num_storage assign) empty_map"
  then have first: "execute_cdb dev tr (read_element_status_cdb 0x00 0x0000 0xFFFF 65535) 65535
            = ((0, buf), tr1)"
    and bytes: "be24 (byte_at buf 5) (byte_at buf 6) (byte_at buf 7) = report_bytes"
    and nz: "report_bytes \<noteq> 0"
    and mode: "read_mode_sense_element dev tr1 zero_assignment = Some (rc_ms, assign, tr2)"
    and m1: "m1 = snd (parse_element_status_map buf
        (if report_bytes + 8 \<le> 65535 then report_bytes + 8 else 65535) m)"
    and p: "p = paginate dev tr2 (first_storage assign) (num_storage assign) empty_map"
    by simp_all
  have unfold: "fetch_element_map dev tr m =
      (if rc_ms = 0 \<and> num_storage assign > 0 then
         let (tr3, m3) = paginate dev tr2 (first_storage assign) (num_storage assign)
                           (m1\<lparr>slots := []\<rparr>);
             m4 = m3\<lparr>slots := fill_missing_slots assign (slots m3)\<rparr>
         in Some (if total_count m4 > 0 then 0 else 1, m4, tr3)
       else Some (if total_count m1 > 0 then 0 else 1, m1, tr2))"
    using nz unfolding m1 bytes [symmetric]
    by (simp add: fetch_element_map_def Let_def first mode split del: if_split cong: if_cong)
  have pag: "paginate dev tr2 (first_storage assign) (num_storage assign) (m1\<lparr>slots := []\<rparr>)
      = (fst p, map_append (m1\<lparr>slots := []\<rparr>) (snd p))"
    unfolding p by (rule paginate_from_empty)
  have both: "(if rc_ms = 0 \<and> 0 < num_storage assign
        then transports m' = transports m1 @ transports (snd p)
           \<and> drives m' = drives m1 @ drives (snd p)
           \<and> ie m' = ie m1 @ ie (snd p)
           \<and> slots m' = fill_missing_slots assign (slots (snd p))
           \<and> tr' = fst p
        else m' = m1 \<and> tr' = tr2)
      \<and> rc = (if 0 < total_count m' then 0 else 1)"
  proof (cases "rc_ms = 0 \<and> 0 < num_storage assign")
    case False
    with fetch show ?thesis
      by (auto simp: unfold)
  next
    case True
    with fetch have "m' = (map_append (m1\<lparr>slots := []\<rparr>) (snd p))
          \<lparr>slots := fill_missing_slots assign (slots (map_append (m1\<lparr>slots := []\<rparr>) (snd p)))\<rparr>"
      and "tr' = fst p" and "rc = (if 0 < total_count m' then 0 else 1)"
      by (auto simp: unfold pag Let_def)
    with True show ?thesis
      by simp
  qed
  from both show "if rc_ms = 0 \<and> 0 < num_storage assign
        then transports m' = transports m1 @ transports (snd p)
           \<and> drives m' = drives m1 @ drives (snd p)
           \<and> ie m' = ie m1 @ ie (snd p)
           \<and> slots m' = fill_missing_slots assign (slots (snd p))
           \<and> tr' = fst p
        else m' = m1 \<and> tr' = tr2"
    by (rule conjunct1)
  from both show "rc = (if 0 < total_count m' then 0 else 1)"
    by (rule conjunct2)
qed

text \<open>
  Two changers whose all-types response declares 65536 bytes of report and holds one
  drive. The MODE SENSE of the first fails, so the storage list is not rebuilt. The
  second declares 2 slots from 0x1000 and refuses the storage-only query, so the
  storage list is rebuilt and filled in; the drive of the all-types response is in the
  map all the same.
\<close>

definition oversized_status :: "u8 list" where
  "oversized_status = status_report 65536 (status_page 4 (descriptor 0x0100 0x00 0 0))"

definition oversized_changer :: device where
  "oversized_changer = toy_changer oversized_status (False, []) (\<lambda>start. (False, [])) True"

definition oversized_declaring_changer :: device where
  "oversized_declaring_changer =
     toy_changer oversized_status (True, mode_sense_data 0x1000 2) (\<lambda>start. (False, [])) True"

lemma oversized_header:
  "be24 (byte_at oversized_status 5) (byte_at oversized_status 6) (byte_at oversized_status 7) = 65536"
  by (simp add: oversized_status_def fixture_defs be24_def)

lemma parse_oversized:
  "parse_element_status_map oversized_status 65535 empty_map
     = (True, \<lparr>transports = [], slots = [], drives = [0x0100], ie = []\<rparr>)"
  by (simp add: oversized_status_def fixture_defs parse_element_status_map_def parse_pages.simps
        parse_descriptors.simps be24_def push_by_type_def element_list_push_def total_count_def
        empty_map_def Let_def)

lemma fetch_oversized:
  "fetch_element_map oversized_changer [] empty_map
     = Some (0, \<lparr>transports = [], slots = [], drives = [0x0100], ie = []\<rparr>, discovery_trace)"
proof -
  have len: "length oversized_status = 28"
    by (simp add: oversized_status_def fixture_defs)
  show ?thesis
    by (simp add: fetch_element_map_def oversized_changer_def execute_cdb_def toy_changer_def
        Let_def len oversized_header parse_oversized read_mode_sense_element_def total_count_def
        discovery_trace_def)
qed

lemma fetch_oversized_declaring:
  "fetch_element_map oversized_declaring_changer [] empty_map
     = Some (0, \<lparr>transports = [], slots = [0x1000, 0x1001], drives = [0x0100], ie = []\<rparr>,
          discovery_trace @ [Scsi (read_element_status_cdb 0x02 0x1000 2 65535)])"
proof -
  have len: "length oversized_status = 28"
    by (simp add: oversized_status_def fixture_defs)
  show ?thesis
    by (simp add: fetch_element_map_def oversized_declaring_changer_def execute_cdb_def
        Let_def len oversized_header parse_oversized mode_sense_toy paginate_no_storage
        total_count_def discovery_trace_def toy_changer_def [of _ _ _ _ "[]"])
qed

theorem all_types_query_never_reissued_witness:
  "fetch_element_map oversized_changer [] empty_map
     = Some (0, \<lparr>transports = [], slots = [], drives = [0x0100], ie = []\<rparr>, discovery_trace)
   \<and> fetch_element_map oversized_declaring_changer [] empty_map
     = Some (0, \<lparr>transports = [], slots = [0x1000, 0x1001], drives = [0x0100], ie = []\<rparr>,
          discovery_trace @ [Scsi (read_element_status_cdb 0x02 0x1000 2 65535)])
   \<and> filter all_types_query (issued [] discovery_trace)
     = [Scsi (read_element_status_cdb 0x00 0x0000 0xFFFF 65535)]
   \<and> filter all_types_query
        (issued [] (discovery_trace @ [Scsi (read_element_status_cdb 0x02 0x1000 2 65535)]))
     = [Scsi (read_element_status_cdb 0x00 0x0000 0xFFFF 65535)]
   \<and> snd (parse_element_status_map oversized_status 65535 empty_map)
     = \<lparr>transports = [], slots = [], drives = [0x0100], ie = []\<rparr>
   \<and> drives \<lparr>transports = [], slots = [0x1000, 0x1001], drives = [0x0100], ie = []\<rparr>
     = drives (snd (parse_element_status_map oversized_status 65535 empty_map)) @ []"
proof -
  have len: "length oversized_status = 28"
    by (simp add: oversized_status_def fixture_defs)
  let ?q = "[Scsi (read_element_status_cdb 0x00 0x0000 0xFFFF 65535)]"
  have first: "execute_cdb oversized_changer [] (read_element_status_cdb 0x00 0x0000 0xFFFF 65535) 65535
      = ((0, oversized_status), ?q)"
    by (simp add: oversized_changer_def execute_cdb_def toy_changer_def len)
  have mode: "read_mode_sense_element oversized_changer ?q zero_assignment
      = Some (1, zero_assignment, discovery_trace)"
    by (simp add: oversized_changer_def read_mode_sense_element_def execute_cdb_def
        toy_changer_def Let_def discovery_trace_def)
  have first2: "execute_cdb oversized_declaring_changer []
      (read_element_status_cdb 0x00 0x0000 0xFFFF 65535) 65535 = ((0, oversized_status), ?q)"
    by (simp add: oversized_declaring_changer_def execute_cdb_def toy_changer_def len)
  have mode2: "read_mode_sense_element oversized_declaring_changer ?q zero_assignment
      = Some (0, example_assignment 0x1000 2, discovery_trace)"
    by (simp add: oversized_declaring_changer_def mode_sense_toy discovery_trace_def)
  have pag: "paginate oversized_declaring_changer discovery_trace 0x1000 2 empty_map
      = (discovery_trace @ [Scsi (read_element_status_cdb 0x02 0x1000 2 65535)], empty_map)"
    by (simp add: oversized_declaring_changer_def paginate_no_storage)
  have em: "drives empty_map = []" "transports empty_map = []" "ie empty_map = []"
      "slots empty_map = []"
    by (simp_all add: empty_map_def)
  note inst = all_types_query_never_reissued [OF fetch_oversized]
  note inst2 = all_types_query_never_reissued [OF fetch_oversized_declaring]
  have a: "filter all_types_query (issued [] discovery_trace) = ?q"
    using inst by simp
  have b: "filter all_types_query
        (issued [] (discovery_trace @ [Scsi (read_element_status_cdb 0x02 0x1000 2 65535)])) = ?q"
    using inst2 by simp
  have c: "\<lparr>transports = [], slots = [], drives = [0x0100], ie = []\<rparr>
      = snd (parse_element_status_map oversized_status 65535 empty_map)"
    using inst [THEN conjunct2, THEN conjunct2, rule_format,
        of oversized_status ?q 65536 1 zero_assignment discovery_trace
          "snd (parse_element_status_map oversized_status 65535 empty_map)"
          "paginate oversized_changer discovery_trace (first_storage zero_assignment)
             (num_storage zero_assignment) empty_map"]
      first mode oversized_header
    by simp
  have d: "drives \<lparr>transports = [], slots = [0x1000, 0x1001], drives = [0x0100], ie = []\<rparr>
     = drives (snd (parse_element_status_map oversized_status 65535 empty_map)) @ []"
    using inst2 [THEN conjunct2, THEN conjunct2, rule_format,
        of oversized_status ?q 65536 0 "example_assignment 0x1000 2" discovery_trace
          "snd (parse_element_status_map oversized_status 65535 empty_map)"
          "paginate oversized_declaring_changer discovery_trace 0x1000 2 empty_map"]
      first2 mode2 oversized_header
    by (simp add: pag em)
  from a b c d show ?thesis
    using fetch_oversized fetch_oversized_declaring by simp
qed

text \<open>
  The claim as stated fails: the header declares 65536 bytes, more than the allocation
  of 65535, and the trace of the call holds the one all-types query and MODE SENSE.
\<close>

theorem all_types_query_never_reissued_counterexample:
  "be24 (byte_at oversized_status 5) (byte_at oversized_status 6) (byte_at oversized_status 7) = 65536
   \<and> fetch_element_map oversized_changer [] empty_map
     = Some (0, \<lparr>transports = [], slots = [], drives = [0x0100], ie = []\<rparr>,
          [Scsi (read_element_status_cdb 0x00 0x0000 0xFFFF 65535), Scsi mode_sense_element_cdb])"
  by (simp add: oversized_header fetch_oversized discovery_trace_def)


text \<open>
  The builder of \<^verbatim>\<open>xl1b_changer.c\<close> does issue the query a second time, with the
  declared byte count plus 8 as allocation, but only while that stays below 65535. A
  byte count that exceeds the allocation of \<^verbatim>\<open>mchanger.c\<close> is outside this window.
\<close>

lemma xl1b_reissue_window:
  assumes "execute_cdb dev tr (read_element_status_cdb 0x00 0x0000 0xFFFF 4096) 4096
      = ((0, buf), tr1)"
    and "report_bytes = be24 (byte_at buf 5) (byte_at buf 6) (byte_at buf 7)"
    and "xl1b_fetch_element_map dev tr m = (rc, m', tr')"
  shows "if 4096 < report_bytes + 8 \<and> report_bytes + 8 < 65535
         then tr' = tr1 @ [Scsi (read_element_status_cdb 0x00 0x0000 0xFFFF (report_bytes + 8))]
         else tr' = tr1"
  using assms
  by (auto simp: xl1b_fetch_element_map_def Let_def dest: execute_cdb_trace
      split: if_splits prod.splits)


end
